theory Spec2Isabelle
  imports Main
begin

section \<open>Strings\<close>

text \<open>
  A JavaScript string is a sequence of code units; it is modelled as a \<open>string\<close>, one
  \<open>char\<close> per code unit. Only operations that treat the units uniformly are used
  (comparison, indexing, prefix test, search, substring, length).
\<close>

text \<open>\<open>startsWith(s, p)\<close> of the utility library: \<open>s\<close> begins with \<open>p\<close>.\<close>

definition startsWith :: "string \<Rightarrow> string \<Rightarrow> bool" where
  "startsWith s p = (take (length p) s = p)"

text \<open>\<open>s[i]\<close>: the code unit at index \<open>i\<close>, \<open>undefined\<close> (here \<open>None\<close>) out of range.\<close>

definition charAt :: "string \<Rightarrow> nat \<Rightarrow> char option" where
  "charAt s i = (if i < length s then Some (s ! i) else None)"

text \<open>\<open>s.indexOf(c)\<close> for a one-unit pattern: the first index of \<open>c\<close>, or \<open>-1\<close>.\<close>

definition indexOf :: "string \<Rightarrow> char \<Rightarrow> int" where
  "indexOf s c = (if c \<in> set s then int (length (takeWhile (\<lambda>x. x \<noteq> c) s)) else - 1)"

text \<open>
  \<open>s.substring(a, b)\<close>: both indices are clamped to \<open>[0, length]\<close> and swapped when
  \<open>a > b\<close>.
\<close>

definition substring :: "string \<Rightarrow> int \<Rightarrow> int \<Rightarrow> string" where
  "substring s a b =
     (let n = int (length s);
          a' = max 0 (min a n);
          b' = max 0 (min b n);
          lo = min a' b';
          hi = max a' b'
      in take (nat (hi - lo)) (drop (nat lo) s))"

text \<open>\<open>s.substring(a)\<close>: up to the end of the string.\<close>

definition substringFrom :: "string \<Rightarrow> int \<Rightarrow> string" where
  "substringFrom s a = substring s a (int (length s))"

text \<open>\<open>s.includes(p)\<close>: \<open>p\<close> occurs in \<open>s\<close> as a contiguous run.\<close>

fun includes_str :: "string \<Rightarrow> string \<Rightarrow> bool" where
  "includes_str [] p = (p = [])"
| "includes_str (c # s) p = (startsWith (c # s) p \<or> includes_str s p)"

text \<open>
  The argument of \<open>includes\<close> is converted to a string: a code unit is itself, and
  \<open>undefined\<close> becomes the text \<open>undefined\<close>.
\<close>

definition toStringArg :: "char option \<Rightarrow> string" where
  "toStringArg x = (case x of None \<Rightarrow> ''undefined'' | Some c \<Rightarrow> [c])"

text \<open>Truthiness of an optional string: defined and not empty.\<close>

definition truthy :: "string option \<Rightarrow> bool" where
  "truthy x = (case x of None \<Rightarrow> False | Some s \<Rightarrow> s \<noteq> [])"

text \<open>Truthiness of an optional boolean.\<close>

definition truthyB :: "bool option \<Rightarrow> bool" where
  "truthyB x = (x = Some True)"

section \<open>Parsed arguments (args.ts)\<close>

text \<open>
  \<open>ParsedArgument\<close>: the union of \<open>{text}\<close>, \<open>{long, argument?}\<close>, \<open>{short}\<close> and
  \<open>{endOfOptions}\<close>. \<open>Long\<close> and \<open>Short\<close> keep the whole raw text, dashes included,
  as the source does.
\<close>

datatype ParsedArgument =
    Text string
  | Long string "string option"
  | Short string
  | EndOfOptions

text \<open>The fields of \<open>Arguments\<close> that hold data; \<open>has\<close> and \<open>get\<close> follow as functions
  of \<open>parsed\<close>.\<close>

record Arguments =
  raw :: "string list"
  parsed :: "ParsedArgument list"

text \<open>The two variables the closure \<open>parse\<close> updates.\<close>

record parse_state =
  eoo :: bool
  parsedArgs :: "ParsedArgument list"

definition push :: "parse_state \<Rightarrow> ParsedArgument \<Rightarrow> parse_state" where
  "push st t = st\<lparr>parsedArgs := parsedArgs st @ [t]\<rparr>"

definition parse :: "parse_state \<Rightarrow> string \<Rightarrow> parse_state" where
  "parse st arg =
     (if eoo st then push st (Text arg)
      else if arg = ''--'' then push (st\<lparr>eoo := True\<rparr>) EndOfOptions
      else if startsWith arg ''--'' then
        (let eq = indexOf arg CHR ''=''
         in if eq = - 1 then push st (Long arg None)
            else push st (Long (substring arg 0 eq)
                               (Some (substring arg (eq + 1) (int (length arg))))))
      else if startsWith arg ''-'' then push st (Short arg)
      else push st (Text arg))"

definition parseArguments :: "string list \<Rightarrow> Arguments" where
  "parseArguments rawArgs =
     (let st = foldl parse \<lparr>eoo = False, parsedArgs = []\<rparr> rawArgs
      in \<lparr>raw = rawArgs, parsed = parsedArgs st\<rparr>)"

subsection \<open>Flag queries\<close>

datatype js_error = TypeError string

text \<open>
  The destructuring at the head of \<open>has\<close> and of \<open>get\<close>: a first argument starting with
  two dashes is the long name and the second argument the short one; a first argument
  starting with one dash is the short name; anything else throws.
\<close>

definition longShort :: "string \<Rightarrow> string option \<Rightarrow> js_error + (string option \<times> string option)" where
  "longShort a b =
     (if startsWith a ''--'' then Inr (Some a, b)
      else if startsWith a ''-'' then Inr (None, Some a)
      else Inl (TypeError ''A flag must start with a dash.''))"

fun has_loop :: "string option \<Rightarrow> string option \<Rightarrow> ParsedArgument list \<Rightarrow> bool" where
  "has_loop long short [] = False"
| "has_loop long short (arg # rest) =
     (case arg of
        Long l _ \<Rightarrow> (if Some l = long then True else has_loop long short rest)
      | Short s \<Rightarrow>
          (if (case short of
                 None \<Rightarrow> False
               | Some sh \<Rightarrow> sh \<noteq> [] \<and> includes_str s (toStringArg (charAt sh 1)))
           then True
           else has_loop long short rest)
      | _ \<Rightarrow> has_loop long short rest)"

definition has :: "ParsedArgument list \<Rightarrow> string \<Rightarrow> string option \<Rightarrow> js_error + bool" where
  "has args a b =
     (case longShort a b of
        Inl e \<Rightarrow> Inl e
      | Inr (long, short) \<Rightarrow> Inr (has_loop long short args))"

text \<open>\<open>short?.[1]\<close>: \<open>undefined\<close> when there is no short name.\<close>

definition optCharAt1 :: "string option \<Rightarrow> char option" where
  "optCharAt1 short = (case short of None \<Rightarrow> None | Some s \<Rightarrow> charAt s 1)"

text \<open>
  The loop of \<open>get\<close>. The list is what remains of \<open>parsedArgs\<close> from index \<open>i\<close> on, so
  \<open>parsedArgs[i + 1]\<close> is the head of \<open>rest\<close>, and \<open>undefined\<close> when \<open>rest\<close> is empty.
\<close>

fun get_loop :: "string option \<Rightarrow> string option \<Rightarrow> ParsedArgument list \<Rightarrow> string option \<Rightarrow> string option" where
  "get_loop long short [] val = val"
| "get_loop long short (arg # rest) val =
     (case arg of
        Long l argument \<Rightarrow>
          (if Some l = long then
             (case argument of
                Some v \<Rightarrow> get_loop long short rest (Some v)
              | None \<Rightarrow>
                  (case rest of
                     Text t # _ \<Rightarrow> get_loop long short rest (Some t)
                   | _ \<Rightarrow> get_loop long short rest (Some '''')))
           else get_loop long short rest val)
      | Short s \<Rightarrow>
          (if charAt s 1 = optCharAt1 short
           then get_loop long short rest (Some (substring s 2 (int (length s))))
           else get_loop long short rest val)
      | _ \<Rightarrow> get_loop long short rest val)"

definition get :: "ParsedArgument list \<Rightarrow> string \<Rightarrow> string option \<Rightarrow> js_error + string option" where
  "get args a b =
     (case longShort a b of
        Inl e \<Rightarrow> Inl e
      | Inr (long, short) \<Rightarrow> Inr (get_loop long short args None))"

section \<open>Errors (errors.ts)\<close>

datatype ClapErrorKind = LibraryBug | DeveloperInduced | InvalidUserInput

datatype ClapErrorReason = Unreachable | BadConfiguration | SubcommandLongFlagValue

text \<open>
  The three error classes. \<open>ClapConfigurationError\<close> holds its message,
  \<open>ClapSubcommandLongFlagValueError\<close> its fields \<open>flag\<close> and \<open>value\<close>. The only
  \<open>ClapUnreachableError\<close> raised has the message \<open>Unexpected type of argument:\<close> followed
  by the JSON text of an argument; it holds that argument.
\<close>

datatype ClapError =
    ClapUnreachableError ParsedArgument
  | ClapConfigurationError string
  | ClapSubcommandLongFlagValueError string string

fun kind :: "ClapError \<Rightarrow> ClapErrorKind" where
  "kind (ClapUnreachableError _) = LibraryBug"
| "kind (ClapConfigurationError _) = DeveloperInduced"
| "kind (ClapSubcommandLongFlagValueError _ _) = InvalidUserInput"

fun reason :: "ClapError \<Rightarrow> ClapErrorReason" where
  "reason (ClapUnreachableError _) = Unreachable"
| "reason (ClapConfigurationError _) = BadConfiguration"
| "reason (ClapSubcommandLongFlagValueError _ _) = SubcommandLongFlagValue"

text \<open>Statements run one after the other; the first error thrown ends the sequence.\<close>

definition andThen :: "ClapError + unit \<Rightarrow> ClapError + 'a \<Rightarrow> ClapError + 'a" where
  "andThen r k = (case r of Inl e \<Rightarrow> Inl e | Inr _ \<Rightarrow> k)"

section \<open>Command definitions (command.ts)\<close>

text \<open>
  A callback \<open>() => void\<close> is known by an identifier; calling it is recorded by adding the
  identifier to the list of calls made.
\<close>

type_synonym action = nat

text \<open>
  The objects of a command tree. \<open>SubcommandDefinition\<close> and \<open>CommandOptions\<close> extend
  \<open>CommandDefinition\<close> by optional fields, and the functions below take any of them where
  a \<open>CommandDefinition\<close> is expected; one type holds the fields that are read, an absent
  field being \<open>None\<close> (the field \<open>alias\<close> is named \<open>aliasNames\<close>). The fields
  \<open>about\<close>, \<open>arguments\<close> and \<open>version\<close> are read by no function and are left out.
\<close>

datatype CommandDefinition = CommandDefinition
  (name: string)
  (action: "action option")
  (subcommandRequired: "bool option")
  (subcommands: "CommandDefinition list option")
  (isDefault: "bool option")
  (aliasNames: "string list option")
  (longFlag: "string option")
  (longFlagAliases: "string list option")
  (shortFlag: "string option")
  (shortFlagAliases: "string list option")
  (disallowWithoutFlag: "bool option")

text \<open>\<open>xs ?? []\<close>.\<close>

definition orEmpty :: "'a list option \<Rightarrow> 'a list" where
  "orEmpty xs = (case xs of None \<Rightarrow> [] | Some l \<Rightarrow> l)"

text \<open>\<open>names.join(sep)\<close>.\<close>

fun join :: "string list \<Rightarrow> string \<Rightarrow> string" where
  "join [] sep = []"
| "join [x] sep = x"
| "join (x # y # ys) sep = x @ sep @ join (y # ys) sep"

section \<open>Validation (validate.ts)\<close>

definition validateSubcommandRequired :: "CommandDefinition \<Rightarrow> ClapError + unit" where
  "validateSubcommandRequired x =
     (if truthyB (subcommandRequired x) \<and> orEmpty (subcommands x) = [] then
        Inl (ClapConfigurationError
          (''In command `'' @ name x @
           ''`, a subcommand is required, yet no subcommands are specified.''))
      else Inr ())"

text \<open>The message of \<open>validateMultipleDefault\<close>.\<close>

definition multipleDefaultMessage :: "string \<Rightarrow> string list \<Rightarrow> string" where
  "multipleDefaultMessage commandName defaultNames =
     ''In command `'' @ commandName @
     ''`, multiple subcommands are specified as default: '' @
     join defaultNames '', ''"

definition validateMultipleDefault :: "CommandDefinition \<Rightarrow> ClapError + unit" where
  "validateMultipleDefault x =
     (let defaultNames = map name (filter (\<lambda>s. truthyB (isDefault s)) (orEmpty (subcommands x)))
      in if length defaultNames > 1 then
           Inl (ClapConfigurationError (multipleDefaultMessage (name x) defaultNames))
         else Inr ())"

definition validateDisallowWithoutFlag :: "CommandDefinition \<Rightarrow> ClapError + unit" where
  "validateDisallowWithoutFlag x =
     (if truthyB (disallowWithoutFlag x) \<and> \<not> (truthy (longFlag x) \<or> truthy (shortFlag x)) then
        Inl (ClapConfigurationError
          (''In subcommand `'' @ name x @
           ''`, calling without flag is disallowed, yet neither `longFlag` nor `shortFlag` are specified.''))
      else Inr ())"

text \<open>The message of \<open>validateShortFlagSingleChar\<close>.\<close>

definition shortFlagMessage :: "string \<Rightarrow> string \<Rightarrow> string" where
  "shortFlagMessage subcommandName flag =
     ''In subcommand `'' @ subcommandName @ ''`, a short flag `'' @ flag @
     ''` was specified. Only short flags consisting of single letter are supported.''"

definition validateShortFlagSingleChar :: "CommandDefinition \<Rightarrow> ClapError + unit" where
  "validateShortFlagSingleChar x =
     (case shortFlag x of
        None \<Rightarrow> Inr ()
      | Some f \<Rightarrow>
          (if f \<noteq> [] \<and> length f \<noteq> 1 then
             Inl (ClapConfigurationError (shortFlagMessage (name x) f))
           else Inr ()))"

text \<open>The object \<open>{ name: n, shortFlag: s }\<close>.\<close>

definition nameAndShortFlag :: "string \<Rightarrow> string \<Rightarrow> CommandDefinition" where
  "nameAndShortFlag n s =
     CommandDefinition n None None None None None None None (Some s) None None"

fun validateShortFlagAliasesSingleChar_loop :: "string \<Rightarrow> string list \<Rightarrow> ClapError + unit" where
  "validateShortFlagAliasesSingleChar_loop n [] = Inr ()"
| "validateShortFlagAliasesSingleChar_loop n (s # rest) =
     andThen (validateShortFlagSingleChar (nameAndShortFlag n s))
             (validateShortFlagAliasesSingleChar_loop n rest)"

definition validateShortFlagAliasesSingleChar :: "CommandDefinition \<Rightarrow> ClapError + unit" where
  "validateShortFlagAliasesSingleChar x =
     validateShortFlagAliasesSingleChar_loop (name x) (orEmpty (shortFlagAliases x))"

text \<open>The argument \<open>type\<close>, one of the texts \<open>long\<close> and \<open>short\<close>.\<close>

datatype flag_type = long_type | short_type

fun flag_type_text :: "flag_type \<Rightarrow> string" where
  "flag_type_text long_type = ''long''"
| "flag_type_text short_type = ''short''"

text \<open>\<open>x[`${type}FlagAliases`]\<close> and \<open>x[`${type}Flag`]\<close>.\<close>

fun flagAliasesOf :: "CommandDefinition \<Rightarrow> flag_type \<Rightarrow> string list option" where
  "flagAliasesOf x long_type = longFlagAliases x"
| "flagAliasesOf x short_type = shortFlagAliases x"

fun flagOf :: "CommandDefinition \<Rightarrow> flag_type \<Rightarrow> string option" where
  "flagOf x long_type = longFlag x"
| "flagOf x short_type = shortFlag x"

definition validateFlagAliasesWithoutFlag :: "CommandDefinition \<Rightarrow> flag_type \<Rightarrow> ClapError + unit" where
  "validateFlagAliasesWithoutFlag x type =
     (if orEmpty (flagAliasesOf x type) \<noteq> [] \<and> \<not> truthy (flagOf x type) then
        Inl (ClapConfigurationError
          (''In subcommand `'' @ name x @ ''`, an alias for a '' @ flag_type_text type @
           '' flag has been provided while `'' @ flag_type_text type @
           ''Flag` is not specified.''))
      else Inr ())"

text \<open>
  The three functions that call each other, and the loop of \<open>validateSubcommands\<close> over
  the list of subcommands.
\<close>

function validateCommandDefinition :: "CommandDefinition \<Rightarrow> ClapError + unit"
  and validateSubcommands :: "CommandDefinition \<Rightarrow> ClapError + unit"
  and validateSubcommands_loop :: "CommandDefinition list \<Rightarrow> ClapError + unit"
  and validateSubcommandDefinition :: "CommandDefinition \<Rightarrow> ClapError + unit"
where
  "validateCommandDefinition x =
     andThen (validateSubcommandRequired x)
    (andThen (validateMultipleDefault x)
             (validateSubcommands x))"
| "validateSubcommands x = validateSubcommands_loop (orEmpty (subcommands x))"
| "validateSubcommands_loop [] = Inr ()"
| "validateSubcommands_loop (s # rest) =
     andThen (validateSubcommandDefinition s) (validateSubcommands_loop rest)"
| "validateSubcommandDefinition x =
     andThen (validateCommandDefinition x)
    (andThen (validateDisallowWithoutFlag x)
    (andThen (validateShortFlagSingleChar x)
    (andThen (validateShortFlagAliasesSingleChar x)
    (andThen (validateFlagAliasesWithoutFlag x long_type)
             (validateFlagAliasesWithoutFlag x short_type)))))"
  by pat_completeness auto

termination validateCommandDefinition
proof (relation "inv_image (less_than <*lex*> less_than)
     (\<lambda>v. case v of
        Inl (Inl x) \<Rightarrow> (size x, 2::nat)
      | Inl (Inr x) \<Rightarrow> (size x, 1)
      | Inr (Inl xs) \<Rightarrow> (size_list size xs, 0)
      | Inr (Inr x) \<Rightarrow> (size x, 3))", goal_cases)
  case 1
  show ?case by (intro wf_inv_image wf_lex_prod wf_less_than)
next
  case (3 x)
  have "size_list size (orEmpty (subcommands x)) < size x"
    by (cases x) (simp add: orEmpty_def split: option.split)
  then show ?case by simp
qed simp_all

definition validateCommandOptions :: "CommandDefinition \<Rightarrow> ClapError + unit" where
  "validateCommandOptions x = validateCommandDefinition x"

section \<open>Commands (command.ts)\<close>

text \<open>The result \<open>{ sub?, nextArg? }\<close> of \<open>matchSubcommand\<close>.\<close>

record match_result =
  sub :: "CommandDefinition option"
  nextArg :: "ParsedArgument option"

text \<open>
  \<open>[flag, ...(aliases ?? [])].some((s) => s === argument.short[1])\<close>: some entry is the
  one-unit string at index 1 of the argument; no string equals \<open>undefined\<close>.
\<close>

definition someIsChar :: "string list \<Rightarrow> char option \<Rightarrow> bool" where
  "someIsChar flags c = (case c of None \<Rightarrow> False | Some u \<Rightarrow> list_ex (\<lambda>s. s = [u]) flags)"

text \<open>
  The loop of \<open>matchSubcommand\<close> over the subcommands, followed by the code after the
  loop when no iteration returns.
\<close>

fun matchSubcommand_loop ::
  "CommandDefinition \<Rightarrow> CommandDefinition list \<Rightarrow> ParsedArgument \<Rightarrow> ClapError + match_result" where
  "matchSubcommand_loop command [] argument =
     (case find (\<lambda>s. truthyB (isDefault s)) (orEmpty (subcommands command)) of
        Some d \<Rightarrow> Inr \<lparr>sub = Some d, nextArg = Some argument\<rparr>
      | None \<Rightarrow> Inr \<lparr>sub = None, nextArg = Some argument\<rparr>)"
| "matchSubcommand_loop command (s # rest) argument =
     (case argument of
        Text t \<Rightarrow>
          (if \<not> truthyB (disallowWithoutFlag s) \<and> t = name s
           then Inr \<lparr>sub = Some s, nextArg = None\<rparr>
           else matchSubcommand_loop command rest argument)
      | Long l a \<Rightarrow>
          (if longFlag s \<noteq> None \<and>
              substringFrom l 2 \<in> set (the (longFlag s) # orEmpty (longFlagAliases s))
           then (case a of
                   Some v \<Rightarrow> Inl (ClapSubcommandLongFlagValueError l v)
                 | None \<Rightarrow> Inr \<lparr>sub = Some s, nextArg = None\<rparr>)
           else matchSubcommand_loop command rest argument)
      | Short sh \<Rightarrow>
          (if shortFlag s \<noteq> None \<and>
              someIsChar (the (shortFlag s) # orEmpty (shortFlagAliases s)) (charAt sh 1)
           then (if length sh = 2 then Inr \<lparr>sub = Some s, nextArg = None\<rparr>
                 else Inr \<lparr>sub = Some s,
                           nextArg = Some (Short (''-'' @ substringFrom sh 2))\<rparr>)
           else matchSubcommand_loop command rest argument)
      | EndOfOptions \<Rightarrow> matchSubcommand_loop command rest argument)"

definition matchSubcommand :: "CommandDefinition \<Rightarrow> ParsedArgument \<Rightarrow> ClapError + match_result" where
  "matchSubcommand command argument =
     matchSubcommand_loop command (orEmpty (subcommands command)) argument"

text \<open>The object returned by \<open>createCommand\<close>; \<open>handle\<close> follows as a function of it.\<close>

record Command =
  options :: CommandDefinition

definition createCommand :: "CommandDefinition \<Rightarrow> ClapError + Command" where
  "createCommand opts =
     (case validateCommandOptions opts of
        Inl e \<Rightarrow> Inl e
      | Inr _ \<Rightarrow> Inr \<lparr>options = opts\<rparr>)"

text \<open>The argument of \<open>handle\<close>: an array of raw strings or an \<open>Arguments\<close> object.\<close>

datatype handle_args = RawArgs "string list" | ParsedArgs Arguments

text \<open>
  What a call of \<open>handle\<close> does: it returns or throws (\<open>outcome\<close>), having called the
  callbacks \<open>called\<close>, in that order.
\<close>

record handle_result =
  outcome :: "ClapError + unit"
  called :: "action list"

text \<open>
  The loop \<open>while (args.length > 0)\<close>. Every path through its body ends in a
  \<open>throw\<close>: the one of \<open>matchSubcommand\<close>, or the one that closes the body. The results
  \<open>sub\<close> and \<open>nextArg\<close> are read by no statement, \<open>command\<close> is never assigned again, and
  no statement calls an \<open>action\<close>.
\<close>

fun handle_loop :: "CommandDefinition \<Rightarrow> ParsedArgument list \<Rightarrow> action list \<Rightarrow> handle_result" where
  "handle_loop command [] acts = \<lparr>outcome = Inr (), called = acts\<rparr>"
| "handle_loop command (arg # args) acts =
     (case matchSubcommand command arg of
        Inl e \<Rightarrow> \<lparr>outcome = Inl e, called = acts\<rparr>
      | Inr m \<Rightarrow> \<lparr>outcome = Inl (ClapUnreachableError arg), called = acts\<rparr>)"

text \<open>The array \<open>args\<close> the loop starts from: the raw strings are parsed first.\<close>

definition argsOf :: "handle_args \<Rightarrow> ParsedArgument list" where
  "argsOf argsIn =
     (case argsIn of RawArgs r \<Rightarrow> parsed (parseArguments r) | ParsedArgs a \<Rightarrow> parsed a)"

definition handle :: "Command \<Rightarrow> handle_args \<Rightarrow> handle_result" where
  "handle cmd argsIn = handle_loop (options cmd) (argsOf argsIn) []"

text \<open>\<open>Command(options).handle(args)\<close>: an error of the construction is thrown before
  \<open>handle\<close> is reached.\<close>

definition Command_handle :: "CommandDefinition \<Rightarrow> handle_args \<Rightarrow> handle_result" where
  "Command_handle opts argsIn =
     (case createCommand opts of
        Inl e \<Rightarrow> \<lparr>outcome = Inl e, called = []\<rparr>
      | Inr cmd \<Rightarrow> handle cmd argsIn)"

section \<open>Notions used to state the properties\<close>

text \<open>
  The token a raw string stands for, as the specification gives it: \<open>seen\<close> tells whether
  the end-of-options marker came earlier. A long flag is split at its first equals sign; a
  short-flag bundle is a dash followed by its letters.
\<close>

definition classify :: "bool \<Rightarrow> string \<Rightarrow> ParsedArgument" where
  "classify seen s =
     (if seen then Text s
      else if s = ''--'' then EndOfOptions
      else if take 2 s = ''--'' then
        (if CHR ''='' \<in> set s
         then Long (takeWhile (\<lambda>c. c \<noteq> CHR ''='') s)
                   (Some (tl (dropWhile (\<lambda>c. c \<noteq> CHR ''='') s)))
         else Long s None)
      else (case s of
              c # letters \<Rightarrow> if c = CHR ''-'' then Short (CHR ''-'' # letters) else Text s
            | [] \<Rightarrow> Text s))"

text \<open>A well-formed short flag spec: a dash followed by one character that is not a dash.\<close>

definition shortSpec :: "string \<Rightarrow> bool" where
  "shortSpec s = (length s = 2 \<and> s ! 0 = CHR ''-'' \<and> s ! 1 \<noteq> CHR ''-'')"

text \<open>
  What one token contributes to the value of a flag, as the specification gives it, for a
  long name \<open>lng\<close> and the character \<open>c\<close> of a short name (each possibly absent);
  \<open>following\<close> holds the tokens after it. A long flag of that name contributes its inline
  value, else the text of the next token when that is a \<open>Text\<close>, else the empty string. A
  bundle whose first letter is \<open>c\<close> contributes the letters after it. Nothing else
  contributes.
\<close>

fun contribution ::
  "string option \<Rightarrow> char option \<Rightarrow> ParsedArgument \<Rightarrow> ParsedArgument list \<Rightarrow> string option" where
  "contribution lng c (Long n v) following =
     (if Some n = lng then
        Some (case v of
                Some x \<Rightarrow> x
              | None \<Rightarrow> (case following of Text t # _ \<Rightarrow> t | _ \<Rightarrow> ''''))
      else None)"
| "contribution lng c (Short s) following =
     (case (c, s) of
        (Some u, dash # first # remainder) \<Rightarrow> if first = u then Some remainder else None
      | _ \<Rightarrow> None)"
| "contribution lng c (Text t) following = None"
| "contribution lng c EndOfOptions following = None"

text \<open>The contribution of the last token that contributes, \<open>None\<close> when none does.\<close>

fun lastContribution ::
  "string option \<Rightarrow> char option \<Rightarrow> ParsedArgument list \<Rightarrow> string option" where
  "lastContribution lng c [] = None"
| "lastContribution lng c (t # rest) =
     (case lastContribution lng c rest of
        Some v \<Rightarrow> Some v
      | None \<Rightarrow> contribution lng c t rest)"

text \<open>An error of the configuration.\<close>

definition is_configuration :: "ClapError \<Rightarrow> bool" where
  "is_configuration e = (\<exists>m. e = ClapConfigurationError m)"

text \<open>
  The long-flag test of \<open>matchSubcommand\<close> for one subcommand: it has a \<open>longFlag\<close>, and
  the name of the token after its two dashes is that flag or one of its aliases.
\<close>

definition longFlagMatches :: "CommandDefinition \<Rightarrow> string \<Rightarrow> bool" where
  "longFlagMatches s l =
     (case longFlag s of
        None \<Rightarrow> False
      | Some f \<Rightarrow> substringFrom l 2 \<in> set (f # orEmpty (longFlagAliases s)))"

text \<open>
  The commands of a tree, the root first: a command, then the commands of the trees of
  its subcommands.
\<close>

function commandsOf :: "CommandDefinition \<Rightarrow> CommandDefinition list"
  and commandsOfList :: "CommandDefinition list \<Rightarrow> CommandDefinition list" where
  "commandsOf x = x # commandsOfList (orEmpty (subcommands x))"
| "commandsOfList [] = []"
| "commandsOfList (s # rest) = commandsOf s @ commandsOfList rest"
  by pat_completeness auto

termination commandsOf
proof (relation "measure (case_sum size (size_list size))", goal_cases)
  case (2 x)
  have "size_list size (orEmpty (subcommands x)) < size x"
    by (cases x) (simp add: orEmpty_def split: option.split)
  then show ?case by simp
qed simp_all

text \<open>
  The subcommands that the validation of a command comes to, every check made before
  having passed: \<open>reached x\<close> lists the subcommands \<open>s\<close> for which
  \<open>validateCommandDefinition x\<close> calls \<open>validateSubcommandDefinition s\<close> before any error
  is thrown, at any depth.
\<close>

function reached :: "CommandDefinition \<Rightarrow> CommandDefinition list"
  and reachedList :: "CommandDefinition list \<Rightarrow> CommandDefinition list" where
  "reached x =
     (if validateSubcommandRequired x = Inr () \<and> validateMultipleDefault x = Inr ()
      then reachedList (orEmpty (subcommands x))
      else [])"
| "reachedList [] = []"
| "reachedList (s # rest) =
     s # reached s @
     (if validateSubcommandDefinition s = Inr () then reachedList rest else [])"
  by pat_completeness auto

termination reached
proof (relation "measure (case_sum size (size_list size))", goal_cases)
  case (2 x)
  have "size_list size (orEmpty (subcommands x)) < size x"
    by (cases x) (simp add: orEmpty_def split: option.split)
  then show ?case by simp
qed simp_all

text \<open>
  A short flag, or an alias of one, that the single-character rule is about and that
  \<open>validateShortFlagSingleChar\<close> tests: a string of two characters or more.
\<close>

definition severalChars :: "string \<Rightarrow> bool" where
  "severalChars f = (1 < length f)"

text \<open>The subcommands of a command that are marked as default.\<close>

definition defaultSubcommands :: "CommandDefinition \<Rightarrow> CommandDefinition list" where
  "defaultSubcommands x = filter (\<lambda>s. isDefault s = Some True) (orEmpty (subcommands x))"

section \<open>Tokenization\<close>

subsection \<open>String operations\<close>

lemma substring_prefix: "0 \<le> k \<Longrightarrow> substring s 0 k = take (nat k) s"
  by (auto simp: substring_def Let_def min_def max_def)

lemma substring_suffix: "0 \<le> k \<Longrightarrow> substring s k (int (length s)) = drop (nat k) s"
  by (auto simp: substring_def Let_def min_def max_def)

lemma take_length_takeWhile: "take (length (takeWhile P s)) s = takeWhile P s"
  by (induction s) auto

lemma drop_length_takeWhile: "drop (length (takeWhile P s)) s = dropWhile P s"
  by (induction s) auto

lemma split_name: "c \<in> set s \<Longrightarrow> substring s 0 (indexOf s c) = takeWhile (\<lambda>x. x \<noteq> c) s"
  by (simp add: indexOf_def substring_prefix take_length_takeWhile)

lemma split_value:
  "c \<in> set s \<Longrightarrow> substring s (indexOf s c + 1) (int (length s)) = tl (dropWhile (\<lambda>x. x \<noteq> c) s)"
proof -
  assume "c \<in> set s"
  then have "substring s (indexOf s c + 1) (int (length s)) = drop (Suc (length (takeWhile (\<lambda>x. x \<noteq> c) s))) s"
    by (simp add: indexOf_def substring_suffix nat_add_distrib)
  also have "\<dots> = tl (drop (length (takeWhile (\<lambda>x. x \<noteq> c) s)) s)"
    by (simp add: drop_Suc tl_drop)
  also have "\<dots> = tl (dropWhile (\<lambda>x. x \<noteq> c) s)"
    by (simp only: drop_length_takeWhile)
  finally show ?thesis .
qed

lemma indexOf_neg: "(indexOf s c = - 1) = (c \<notin> set s)"
  by (simp add: indexOf_def)

subsection \<open>The loop of \<open>parseArguments\<close>\<close>

lemma classify_short:
  "(case s of c # letters \<Rightarrow> if c = CHR ''-'' then Short (CHR ''-'' # letters) else Text s | [] \<Rightarrow> Text s)
     = (if startsWith s ''-'' then Short s else Text s)"
  by (cases s) (auto simp: startsWith_def)

lemma startsWith2: "startsWith s ''--'' = (take 2 s = ''--'')"
  by (simp add: startsWith_def numeral_2_eq_2)

lemma parse_classify:
  "parse st s = \<lparr>eoo = (eoo st \<or> s = ''--''), parsedArgs = parsedArgs st @ [classify (eoo st) s]\<rparr>"
proof (cases st)
  case (fields e ps)
  show ?thesis
  proof (cases "CHR ''='' \<in> set s")
    case True
    then show ?thesis
      unfolding fields parse_def push_def classify_def classify_short Let_def
      by (simp add: indexOf_neg split_name split_value startsWith2)
  next
    case False
    then show ?thesis
      unfolding fields parse_def push_def classify_def classify_short Let_def
      by (simp add: indexOf_neg startsWith2)
  qed
qed

lemma foldl_parse:
  "foldl parse st rawArgs =
     \<lparr>eoo = (eoo st \<or> ''--'' \<in> set rawArgs),
      parsedArgs = parsedArgs st @ map (\<lambda>i. classify (eoo st \<or> ''--'' \<in> set (take i rawArgs)) (rawArgs ! i)) [0..<length rawArgs]\<rparr>"
proof (induction rawArgs rule: rev_induct)
  case Nil
  then show ?case by simp
next
  case (snoc x xs)
  have m: "map (\<lambda>i. classify (eoo st \<or> ''--'' \<in> set (take i (xs @ [x]))) ((xs @ [x]) ! i)) [0..<length xs]
      = map (\<lambda>i. classify (eoo st \<or> ''--'' \<in> set (take i xs)) (xs ! i)) [0..<length xs]"
    by (rule map_cong) (simp_all add: nth_append)
  let ?R = "\<lparr>eoo = (eoo st \<or> ''--'' \<in> set xs),
      parsedArgs = parsedArgs st @ map (\<lambda>i. classify (eoo st \<or> ''--'' \<in> set (take i xs)) (xs ! i)) [0..<length xs]\<rparr>"
  have "foldl parse st (xs @ [x]) = parse (foldl parse st xs) x"
    by simp
  also have "\<dots> = parse ?R x"
    by (simp only: snoc.IH)
  also have "\<dots> = \<lparr>eoo = (eoo ?R \<or> x = ''--''), parsedArgs = parsedArgs ?R @ [classify (eoo ?R) x]\<rparr>"
    by (rule parse_classify)
  finally have "foldl parse st (xs @ [x]) =
      \<lparr>eoo = (eoo ?R \<or> x = ''--''), parsedArgs = parsedArgs ?R @ [classify (eoo ?R) x]\<rparr>" .
  then show ?case
    using m by auto
qed

lemma parsed_parseArguments:
  "parsed (parseArguments rawArgs) =
     map (\<lambda>i. classify (''--'' \<in> set (take i rawArgs)) (rawArgs ! i)) [0..<length rawArgs]"
  by (simp add: parseArguments_def foldl_parse)

lemma parsed_snoc_dash:
  assumes "''--'' \<notin> set rawArgs"
  shows "parsed (parseArguments (rawArgs @ [''-''])) = parsed (parseArguments rawArgs) @ [Short ''-'']"
proof -
  have "map (\<lambda>i. classify (''--'' \<in> set (take i (rawArgs @ [''-'']))) ((rawArgs @ [''-'']) ! i)) [0..<length rawArgs]
      = map (\<lambda>i. classify (''--'' \<in> set (take i rawArgs)) (rawArgs ! i)) [0..<length rawArgs]"
    by (rule map_cong) (simp_all add: nth_append)
  moreover have "classify (''--'' \<in> set rawArgs) ''-'' = Short ''-''"
    using assms by (simp add: classify_def)
  ultimately show ?thesis
    by (simp add: parsed_parseArguments)
qed

lemma classify_Short: "classify seen r = Short s \<Longrightarrow> \<exists>letters. s = CHR ''-'' # letters"
  by (auto simp: classify_def split: if_splits list.splits)

lemma parsed_Short:
  assumes "Short s \<in> set (parsed (parseArguments rawArgs))"
  shows "\<exists>letters. s = CHR ''-'' # letters"
proof -
  from assms obtain i where "classify (''--'' \<in> set (take i rawArgs)) (rawArgs ! i) = Short s"
    by (auto simp: parsed_parseArguments)
  then show ?thesis by (rule classify_Short)
qed

text \<open>
  C3. \<open>parseArguments\<close> is a total function of the raw strings. It gives one token per
  string, in order: the token at index \<open>i\<close> is the classification of the string at index
  \<open>i\<close>, knowing whether the marker \<open>--\<close> occurs before it. Once the marker has been
  seen a string is a \<open>Text\<close>; the marker itself is \<open>EndOfOptions\<close>; a string starting with
  two dashes is a long flag, split at its first equals sign; another string starting with
  a dash is a short-flag bundle; anything else is a \<open>Text\<close>. The strings \<open>--hello\<close>,
  \<open>world\<close>, \<open>-aBc\<close> give a long flag, a text and a bundle, and no string after the first
  marker is a flag.
\<close>

theorem parseArguments_one_token_per_string:
  "length (parsed (parseArguments rawArgs)) = length rawArgs
   \<and> (\<forall>i<length rawArgs.
        parsed (parseArguments rawArgs) ! i = classify (''--'' \<in> set (take i rawArgs)) (rawArgs ! i))
   \<and> parsed (parseArguments [''--hello'', ''world'', ''-aBc''])
        = [Long ''--hello'' None, Text ''world'', Short ''-aBc'']
   \<and> (\<forall>i j. j < i \<and> i < length rawArgs \<and> rawArgs ! j = ''--''
        \<longrightarrow> parsed (parseArguments rawArgs) ! i = Text (rawArgs ! i))"
proof -
  have len: "length (parsed (parseArguments rawArgs)) = length rawArgs"
    by (simp add: parsed_parseArguments)
  have nth: "\<And>raw i. i < length raw \<Longrightarrow>
      parsed (parseArguments raw) ! i = classify (''--'' \<in> set (take i raw)) (raw ! i)"
    by (simp add: parsed_parseArguments)
  have ex: "parsed (parseArguments [''--hello'', ''world'', ''-aBc''])
        = [Long ''--hello'' None, Text ''world'', Short ''-aBc'']"
    by (simp add: parseArguments_def parse_def push_def startsWith_def indexOf_def)
  have after: "parsed (parseArguments rawArgs) ! i = Text (rawArgs ! i)"
    if "j < i" "i < length rawArgs" "rawArgs ! j = ''--''" for i j
  proof -
    from that have "j < length (take i rawArgs)" and "take i rawArgs ! j = rawArgs ! j"
      by simp_all
    then have "rawArgs ! j \<in> set (take i rawArgs)"
      using nth_mem by metis
    with that show ?thesis
      by (simp add: nth classify_def)
  qed
  show ?thesis
  proof (intro conjI allI impI)
    show "length (parsed (parseArguments rawArgs)) = length rawArgs" by (rule len)
    show "parsed (parseArguments rawArgs) ! i = classify (''--'' \<in> set (take i rawArgs)) (rawArgs ! i)"
      if "i < length rawArgs" for i using that by (rule nth)
    show "parsed (parseArguments [''--hello'', ''world'', ''-aBc''])
        = [Long ''--hello'' None, Text ''world'', Short ''-aBc'']" by (rule ex)
    show "parsed (parseArguments rawArgs) ! i = Text (rawArgs ! i)"
      if "j < i \<and> i < length rawArgs \<and> rawArgs ! j = ''--''" for i j
      using that after by blast
  qed
qed

theorem parseArguments_one_token_per_string_witness:
  "(1::nat) < length [''--'', ''-x'', ''--y=1''] \<and>
   parsed (parseArguments [''--'', ''-x'', ''--y=1'']) ! 1 = Text ''-x''"
proof -
  have "(0::nat) < 1 \<and> (1::nat) < length [''--'', ''-x'', ''--y=1''] \<and> [''--'', ''-x'', ''--y=1''] ! 0 = ''--''"
    by simp
  with parseArguments_one_token_per_string [of "[''--'', ''-x'', ''--y=1'']"]
  have "parsed (parseArguments [''--'', ''-x'', ''--y=1'']) ! 1 = Text ([''--'', ''-x'', ''--y=1''] ! 1)"
    by blast
  then show ?thesis by simp
qed

section \<open>Flag queries\<close>

subsection \<open>\<open>has\<close>\<close>

lemma includes_single: "includes_str s [c] = (c \<in> set s)"
  by (induction s) (auto simp: startsWith_def)

lemma has_loop_iff:
  "has_loop lng sht toks =
     ((\<exists>l v. lng = Some l \<and> Long l v \<in> set toks) \<or>
      (\<exists>s sh. sht = Some sh \<and> sh \<noteq> [] \<and> Short s \<in> set toks \<and>
              includes_str s (toStringArg (charAt sh 1))))"
proof (induction toks)
  case Nil
  show ?case by simp
next
  case (Cons t toks)
  show ?case
  proof (cases t)
    case (Long l v)
    then show ?thesis using Cons.IH by auto
  next
    case (Short s)
    then show ?thesis using Cons.IH by (cases sht) auto
  qed (use Cons.IH in auto)
qed

lemma shortSpec_cases: "shortSpec sh \<Longrightarrow> \<exists>c. sh = [CHR ''-'', c] \<and> c \<noteq> CHR ''-''"
  by (cases sh; cases "tl sh") (auto simp: shortSpec_def)

text \<open>
  C5. Over the tokens of any raw strings and for a well-formed flag spec (a long name, a
  short name, or both; the short name a dash and one character other than a dash), \<open>has\<close>
  is true exactly when some long-flag token has the long name, or some short-flag bundle
  has the character of the short name among its letters, at any position. The comparison
  is case-sensitive: on the tokens of \<open>-aBc\<close>, \<open>-B\<close> is present and \<open>-b\<close> is not.
\<close>

theorem has_iff_flag_present:
  assumes "longShort a b = Inr (lng, sht)"
      and "case sht of None \<Rightarrow> True | Some s \<Rightarrow> shortSpec s"
  shows "has (parsed (parseArguments rawArgs)) a b =
           Inr ((\<exists>l v. lng = Some l \<and> Long l v \<in> set (parsed (parseArguments rawArgs))) \<or>
                (\<exists>c letters. sht = Some [CHR ''-'', c] \<and>
                    Short (CHR ''-'' # letters) \<in> set (parsed (parseArguments rawArgs)) \<and>
                    c \<in> set letters))
         \<and> has (parsed (parseArguments [''-aBc''])) ''-B'' None = Inr True
         \<and> has (parsed (parseArguments [''-aBc''])) ''-b'' None = Inr False"
proof -
  let ?toks = "parsed (parseArguments rawArgs)"
  have short_eq:
    "(\<exists>s sh. sht = Some sh \<and> sh \<noteq> [] \<and> Short s \<in> set ?toks \<and>
              includes_str s (toStringArg (charAt sh 1)))
     = (\<exists>c letters. sht = Some [CHR ''-'', c] \<and> Short (CHR ''-'' # letters) \<in> set ?toks \<and>
              c \<in> set letters)" (is "?L = ?R")
  proof
    assume ?L
    then obtain s sh where sh: "sht = Some sh" and s: "Short s \<in> set ?toks"
      and inc: "includes_str s (toStringArg (charAt sh 1))" by blast
    from sh assms(2) have "shortSpec sh" by simp
    then obtain c where c: "sh = [CHR ''-'', c]" "c \<noteq> CHR ''-''"
      using shortSpec_cases by blast
    from s obtain letters where l: "s = CHR ''-'' # letters"
      using parsed_Short by blast
    from inc c l have "c \<in> set letters"
      by (simp add: charAt_def toStringArg_def includes_single)
    with sh c l s show ?R by blast
  next
    assume ?R
    then obtain c letters where "sht = Some [CHR ''-'', c]"
      "Short (CHR ''-'' # letters) \<in> set ?toks" "c \<in> set letters" by blast
    then show ?L
      by (intro exI [of _ "CHR ''-'' # letters"] exI [of _ "[CHR ''-'', c]"])
         (simp add: charAt_def toStringArg_def includes_single)
  qed
  have "has ?toks a b = Inr (has_loop lng sht ?toks)"
    using assms(1) by (simp add: has_def)
  then have general: "has ?toks a b =
           Inr ((\<exists>l v. lng = Some l \<and> Long l v \<in> set ?toks) \<or>
                (\<exists>c letters. sht = Some [CHR ''-'', c] \<and> Short (CHR ''-'' # letters) \<in> set ?toks \<and>
                    c \<in> set letters))"
    by (simp only: has_loop_iff short_eq)
  have toks: "parsed (parseArguments [''-aBc'']) = [Short ''-aBc'']"
    by (simp add: parseArguments_def parse_def push_def startsWith_def)
  have upper: "has (parsed (parseArguments [''-aBc''])) ''-B'' None = Inr True"
    by (simp add: toks has_def longShort_def startsWith_def charAt_def toStringArg_def)
  have lower: "has (parsed (parseArguments [''-aBc''])) ''-b'' None = Inr False"
    by (simp add: toks has_def longShort_def startsWith_def charAt_def toStringArg_def)
  from general upper lower show ?thesis by (intro conjI)
qed

theorem has_iff_flag_present_witness:
  "longShort ''--all'' (Some ''-a'') = Inr (Some ''--all'', Some ''-a'')
   \<and> shortSpec ''-a''
   \<and> has (parsed (parseArguments [''--hello'', ''world'', ''-aBc''])) ''--all'' (Some ''-a'') = Inr True"
proof -
  have l: "longShort ''--all'' (Some ''-a'') = Inr (Some ''--all'', Some ''-a'')"
    by (simp add: longShort_def startsWith_def)
  have w: "shortSpec ''-a''"
    by (simp add: shortSpec_def)
  then have w': "case Some ''-a'' of None \<Rightarrow> True | Some s \<Rightarrow> shortSpec s"
    by simp
  have toks: "parsed (parseArguments [''--hello'', ''world'', ''-aBc''])
      = [Long ''--hello'' None, Text ''world'', Short ''-aBc'']"
    by (simp add: parseArguments_def parse_def push_def startsWith_def indexOf_def)
  from has_iff_flag_present [OF l w', of "[''--hello'', ''world'', ''-aBc'']"]
  have "has (parsed (parseArguments [''--hello'', ''world'', ''-aBc''])) ''--all'' (Some ''-a'') = Inr True"
    by (simp add: toks)
  with l w show ?thesis by blast
qed

text \<open>
  With the short name \<open>--\<close>, which is not well-formed, \<open>has\<close> finds the dash that every
  bundle starts with.
\<close>

lemma has_short_name_of_dashes:
  "has (parsed (parseArguments [''-a''])) ''--foo'' (Some ''--'') = Inr True"
  by (simp add: parseArguments_def parse_def push_def startsWith_def has_def longShort_def
      charAt_def toStringArg_def)

subsection \<open>\<open>get\<close>\<close>

lemma get_loop_step_ex: "\<exists>v'. get_loop long short (x # rest) val = get_loop long short rest v'"
proof (cases x)
  case (Long l argument)
  then show ?thesis
    by (cases argument; cases rest) (auto split: ParsedArgument.split)
qed auto

lemma get_loop_snoc_dash:
  "get_loop long None (xs @ [Short ''-'']) val = Some ''''"
proof (induction xs arbitrary: val)
  case Nil
  show ?case by (simp add: charAt_def optCharAt1_def substring_def)
next
  case (Cons x xs)
  obtain v' where "get_loop long None (x # (xs @ [Short ''-''])) val = get_loop long None (xs @ [Short ''-'']) v'"
    using get_loop_step_ex by blast
  then show ?case
    by (simp only: append_Cons Cons.IH)
qed

text \<open>
  C10. When \<open>get\<close> is called with a long name only, a bare \<open>-\<close> among the tokens takes
  the branch of the short-flag bundles, since the bundle has no first letter and there is
  no short name, and sets the result to the empty string. So a bare \<open>-\<close> at the end of the
  raw strings (no end-of-options marker before it) makes \<open>get\<close> return the empty string:
  for \<open>--foo x -\<close> the result is empty and not \<open>x\<close>, and for \<open>-\<close> alone it is empty
  and not undefined.
\<close>

theorem get_bare_dash_long_only:
  "startsWith a ''--'' \<Longrightarrow> ''--'' \<notin> set rawArgs \<Longrightarrow>
     get (parsed (parseArguments (rawArgs @ [''-'']))) a None = Inr (Some '''')
     \<and> get (parsed (parseArguments [''--foo'', ''x'', ''-''])) ''--foo'' None = Inr (Some '''')
     \<and> get (parsed (parseArguments [''-''])) ''--foo'' None = Inr (Some '''')"
proof -
  assume a: "startsWith a ''--''" and r: "''--'' \<notin> set rawArgs"
  have g: "\<And>raw l. startsWith l ''--'' \<Longrightarrow> ''--'' \<notin> set raw \<Longrightarrow>
      get (parsed (parseArguments (raw @ [''-'']))) l None = Inr (Some '''')"
    by (simp add: get_def longShort_def parsed_snoc_dash get_loop_snoc_dash)
  have "get (parsed (parseArguments ([''--foo'', ''x''] @ [''-'']))) ''--foo'' None = Inr (Some '''')"
    by (rule g) (simp_all add: startsWith_def)
  moreover have "get (parsed (parseArguments ([] @ [''-'']))) ''--foo'' None = Inr (Some '''')"
    by (rule g) (simp_all add: startsWith_def)
  ultimately show ?thesis
    using g [OF a r] by simp
qed

theorem get_bare_dash_long_only_witness:
  "startsWith ''--foo'' ''--'' \<and> ''--'' \<notin> set [''--foo'', ''x''] \<and>
   get (parsed (parseArguments ([''--foo'', ''x''] @ [''-'']))) ''--foo'' None = Inr (Some '''')"
proof -
  have a: "startsWith ''--foo'' ''--''" by (simp add: startsWith_def)
  have r: "''--'' \<notin> set [''--foo'', ''x'']" by simp
  from get_bare_dash_long_only [OF a r] a r show ?thesis by blast
qed

lemma substring_drop2: "substring s 2 (int (length s)) = drop 2 s"
  by (auto simp: substring_def Let_def min_def max_def)

lemma substring_after_two: "substring (d # f # r) 2 (2 + int (length r)) = r"
  using substring_drop2 [of "d # f # r"] by simp

lemma get_loop_step:
  assumes "case sht of None \<Rightarrow> (\<forall>s. t = Short s \<longrightarrow> 2 \<le> length s) | Some sh \<Rightarrow> shortSpec sh"
  shows "get_loop lng sht (t # rest) val =
     get_loop lng sht rest
       (case contribution lng (optCharAt1 sht) t rest of Some v \<Rightarrow> Some v | None \<Rightarrow> val)"
proof (cases t)
  case (Text x)
  then show ?thesis by simp
next
  case (Long n v)
  then show ?thesis
    by (cases v; cases rest) (auto split: ParsedArgument.split)
next
  case (Short s)
  show ?thesis
  proof (cases sht)
    case None
    with assms Short have "2 \<le> length s" by simp
    then obtain d f r where "s = d # f # r"
      by (cases s; cases "tl s") auto
    with None Short show ?thesis
      by (simp add: charAt_def optCharAt1_def)
  next
    case (Some sh)
    with assms have "shortSpec sh" by simp
    then obtain u where sh: "sh = [CHR ''-'', u]"
      by (cases sh; cases "tl sh") (auto simp: shortSpec_def)
    show ?thesis
    proof (cases s)
      case Nil
      with Some Short sh show ?thesis by (simp add: charAt_def optCharAt1_def)
    next
      case (Cons d s')
      show ?thesis
      proof (cases s')
        case Nil
        with Cons Some Short sh show ?thesis by (simp add: charAt_def optCharAt1_def)
      next
        case (Cons f r)
        with \<open>s = d # s'\<close> Some Short sh show ?thesis
          by (simp add: charAt_def optCharAt1_def substring_after_two)
      qed
    qed
  qed
next
  case EndOfOptions
  then show ?thesis by simp
qed

lemma get_loop_last_contribution:
  assumes "case sht of None \<Rightarrow> (\<forall>s. Short s \<in> set toks \<longrightarrow> 2 \<le> length s) | Some sh \<Rightarrow> shortSpec sh"
  shows "get_loop lng sht toks val =
     (case lastContribution lng (optCharAt1 sht) toks of Some v \<Rightarrow> Some v | None \<Rightarrow> val)"
  using assms
proof (induction toks arbitrary: val)
  case Nil
  show ?case by simp
next
  case (Cons t toks)
  have here: "case sht of None \<Rightarrow> (\<forall>s. t = Short s \<longrightarrow> 2 \<le> length s) | Some sh \<Rightarrow> shortSpec sh"
    using Cons.prems by (cases sht) auto
  have rest: "case sht of None \<Rightarrow> (\<forall>s. Short s \<in> set toks \<longrightarrow> 2 \<le> length s) | Some sh \<Rightarrow> shortSpec sh"
    using Cons.prems by (cases sht) auto
  show ?case
    unfolding get_loop_step [OF here] Cons.IH [OF rest]
    by (simp split: option.split)
qed

text \<open>
  Whenever a short name is given, or no bundle among the tokens is shorter than two
  characters (a bare dash), \<open>get\<close> returns the contribution of the last token that
  contributes.
\<close>

lemma get_is_last_contribution:
  assumes "longShort a b = Inr (lng, sht)"
      and "case sht of None \<Rightarrow> (\<forall>s. Short s \<in> set toks \<longrightarrow> 2 \<le> length s) | Some sh \<Rightarrow> shortSpec sh"
  shows "get toks a b = Inr (lastContribution lng (optCharAt1 sht) toks)"
  using assms(1) get_loop_last_contribution [OF assms(2), of lng None]
  by (simp add: get_def split: option.split)

text \<open>
  C4. The value \<open>get\<close> returns is to be that of the last contributing occurrence of the
  flag. For the raw strings \<open>--add 3 -\<close> and the long name \<open>--add\<close> alone, the last
  occurrence of the flag is \<open>--add 3\<close>, and the bare dash is no occurrence of it: there is
  no short name whose character it could start with, and the last contribution is \<open>3\<close>.
  The code returns the empty string there, and \<open>3\<close> once the bare dash is taken away.
\<close>

theorem get_bare_dash_after_value:
  "parsed (parseArguments [''--add'', ''3'', ''-'']) = [Long ''--add'' None, Text ''3'', Short ''-'']
   \<and> get (parsed (parseArguments [''--add'', ''3'', ''-''])) ''--add'' None = Inr (Some '''')
   \<and> lastContribution (Some ''--add'') None (parsed (parseArguments [''--add'', ''3'', ''-'']))
       = Some ''3''
   \<and> get (parsed (parseArguments [''--add'', ''3''])) ''--add'' None = Inr (Some ''3'')"
proof -
  have a: "parsed (parseArguments [''--add'', ''3'', ''-'']) = [Long ''--add'' None, Text ''3'', Short ''-'']"
    by (simp add: parseArguments_def parse_def push_def startsWith_def indexOf_def)
  have b: "parsed (parseArguments [''--add'', ''3'']) = [Long ''--add'' None, Text ''3'']"
    by (simp add: parseArguments_def parse_def push_def startsWith_def indexOf_def)
  show ?thesis
    by (simp add: a b get_def longShort_def startsWith_def charAt_def optCharAt1_def substring_def)
qed

section \<open>Subcommand matching\<close>

lemma loop_long_value:
  assumes "s \<in> set subs" "longFlag s = Some f"
    "substringFrom l 2 \<in> set (f # orEmpty (longFlagAliases s))"
  shows "matchSubcommand_loop command subs (Long l (Some v)) = Inl (ClapSubcommandLongFlagValueError l v)"
  using assms by (induction subs) auto

lemma loop_long_plain:
  assumes "s \<in> set subs" "longFlag s = Some f"
    "substringFrom l 2 \<in> set (f # orEmpty (longFlagAliases s))"
  shows "\<exists>s' f'. s' \<in> set subs \<and> longFlag s' = Some f' \<and>
           substringFrom l 2 \<in> set (f' # orEmpty (longFlagAliases s')) \<and>
           matchSubcommand_loop command subs (Long l None) = Inr \<lparr>sub = Some s', nextArg = None\<rparr>"
  using assms
proof (induction subs)
  case Nil
  then show ?case by simp
next
  case (Cons x subs)
  show ?case
  proof (cases "longFlag x \<noteq> None \<and>
      substringFrom l 2 \<in> set (the (longFlag x) # orEmpty (longFlagAliases x))")
    case True
    then obtain fx where "longFlag x = Some fx" by auto
    with True show ?thesis
      by (intro exI [of _ x] exI [of _ fx]) auto
  next
    case False
    with Cons.prems have "s \<in> set subs" by auto
    from Cons.IH [OF this Cons.prems(2,3)] obtain s' f' where
      "s' \<in> set subs" "longFlag s' = Some f'"
      "substringFrom l 2 \<in> set (f' # orEmpty (longFlagAliases s'))"
      "matchSubcommand_loop command subs (Long l None) = Inr \<lparr>sub = Some s', nextArg = None\<rparr>"
      by blast
    with False show ?thesis
      by (intro exI [of _ s'] exI [of _ f']) auto
  qed
qed

lemma loop_error_cases:
  "matchSubcommand_loop command subs arg = Inl e \<Longrightarrow>
     \<exists>l v s f. arg = Long l (Some v) \<and> e = ClapSubcommandLongFlagValueError l v \<and>
       s \<in> set subs \<and> longFlag s = Some f \<and>
       substringFrom l 2 \<in> set (f # orEmpty (longFlagAliases s))"
proof (induction subs)
  case Nil
  then show ?case by (simp split: option.splits)
next
  case (Cons x subs)
  show ?case
  proof (cases arg)
    case (Text t)
    with Cons show ?thesis by (auto split: if_splits)
  next
    case (Long l a)
    show ?thesis
    proof (cases "longFlag x \<noteq> None \<and>
        substringFrom l 2 \<in> set (the (longFlag x) # orEmpty (longFlagAliases x))")
      case True
      then obtain fx where fx: "longFlag x = Some fx" by auto
      from True Long Cons.prems obtain v where "a = Some v" "e = ClapSubcommandLongFlagValueError l v"
        by (cases a) auto
      with True Long fx show ?thesis
        by (intro exI [of _ l] exI [of _ v] exI [of _ x] exI [of _ fx]) auto
    next
      case False
      with Long Cons.prems have "matchSubcommand_loop command subs arg = Inl e" by auto
      from Cons.IH [OF this] show ?thesis by auto
    qed
  next
    case (Short sh)
    with Cons show ?thesis by (auto split: if_splits)
  next
    case EndOfOptions
    with Cons show ?thesis by auto
  qed
qed

lemma longFlagMatches_iff:
  "longFlagMatches s l = (\<exists>f. longFlag s = Some f \<and> substringFrom l 2 \<in> set (f # orEmpty (longFlagAliases s)))"
  by (simp add: longFlagMatches_def split: option.split)

lemma matchSubcommand_error_iff:
  "(\<exists>e. matchSubcommand command arg = Inl e) =
     (\<exists>l v. arg = Long l (Some v) \<and> (\<exists>s \<in> set (orEmpty (subcommands command)). longFlagMatches s l))"
proof
  assume "\<exists>e. matchSubcommand command arg = Inl e"
  then obtain e where "matchSubcommand_loop command (orEmpty (subcommands command)) arg = Inl e"
    by (auto simp: matchSubcommand_def)
  from loop_error_cases [OF this] show
    "\<exists>l v. arg = Long l (Some v) \<and> (\<exists>s \<in> set (orEmpty (subcommands command)). longFlagMatches s l)"
    by (auto simp: longFlagMatches_iff)
next
  assume "\<exists>l v. arg = Long l (Some v) \<and> (\<exists>s \<in> set (orEmpty (subcommands command)). longFlagMatches s l)"
  then obtain l v s f where "arg = Long l (Some v)" "s \<in> set (orEmpty (subcommands command))"
    "longFlag s = Some f" "substringFrom l 2 \<in> set (f # orEmpty (longFlagAliases s))"
    by (auto simp: longFlagMatches_iff)
  then show "\<exists>e. matchSubcommand command arg = Inl e"
    using loop_long_value [of s "orEmpty (subcommands command)" f l command v]
    by (simp add: matchSubcommand_def)
qed

text \<open>
  C7. When the name of a long-flag token is the \<open>longFlag\<close> of a subcommand or one of its
  \<open>longFlagAliases\<close> and the token has an inline value, \<open>matchSubcommand\<close> throws the error
  of reason \<open>SubcommandLongFlagValue\<close> and kind \<open>InvalidUserInput\<close> that holds the flag
  and the value, and \<open>handle\<close> throws it when the token comes first. The same token
  without an inline value makes \<open>matchSubcommand\<close> return a subcommand it matches, with no
  error and no argument left over.
\<close>

theorem matchSubcommand_long_flag_value:
  assumes "s \<in> set (orEmpty (subcommands command))"
      and "longFlag s = Some f"
      and "substringFrom l 2 \<in> set (f # orEmpty (longFlagAliases s))"
  shows "matchSubcommand command (Long l (Some v)) = Inl (ClapSubcommandLongFlagValueError l v)
       \<and> kind (ClapSubcommandLongFlagValueError l v) = InvalidUserInput
       \<and> reason (ClapSubcommandLongFlagValueError l v) = SubcommandLongFlagValue
       \<and> outcome (handle \<lparr>options = command\<rparr> (ParsedArgs \<lparr>raw = r, parsed = Long l (Some v) # rest\<rparr>))
           = Inl (ClapSubcommandLongFlagValueError l v)
       \<and> (\<exists>s' f'. s' \<in> set (orEmpty (subcommands command)) \<and> longFlag s' = Some f' \<and>
             substringFrom l 2 \<in> set (f' # orEmpty (longFlagAliases s')) \<and>
             matchSubcommand command (Long l None) = Inr \<lparr>sub = Some s', nextArg = None\<rparr>)"
proof -
  have e: "matchSubcommand command (Long l (Some v)) = Inl (ClapSubcommandLongFlagValueError l v)"
    using loop_long_value [OF assms] by (simp add: matchSubcommand_def)
  then have h: "outcome (handle \<lparr>options = command\<rparr> (ParsedArgs \<lparr>raw = r, parsed = Long l (Some v) # rest\<rparr>))
           = Inl (ClapSubcommandLongFlagValueError l v)"
    by (simp add: handle_def argsOf_def)
  have p: "\<exists>s' f'. s' \<in> set (orEmpty (subcommands command)) \<and> longFlag s' = Some f' \<and>
             substringFrom l 2 \<in> set (f' # orEmpty (longFlagAliases s')) \<and>
             matchSubcommand command (Long l None) = Inr \<lparr>sub = Some s', nextArg = None\<rparr>"
    using loop_long_plain [OF assms] by (simp add: matchSubcommand_def)
  from e h p show ?thesis by simp
qed

theorem matchSubcommand_long_flag_value_witness:
  "CommandDefinition ''s'' None None None None None (Some ''s'') (Some [''t'']) None None None
     \<in> set (orEmpty (subcommands (CommandDefinition ''r'' None None
          (Some [CommandDefinition ''s'' None None None None None (Some ''s'') (Some [''t'']) None None None])
          None None None None None None None)))
   \<and> longFlag (CommandDefinition ''s'' None None None None None (Some ''s'') (Some [''t'']) None None None) = Some ''s''
   \<and> substringFrom ''--t'' 2 \<in> set (''s'' # orEmpty (longFlagAliases
          (CommandDefinition ''s'' None None None None None (Some ''s'') (Some [''t'']) None None None)))
   \<and> matchSubcommand (CommandDefinition ''r'' None None
          (Some [CommandDefinition ''s'' None None None None None (Some ''s'') (Some [''t'']) None None None])
          None None None None None None None) (Long ''--t'' (Some ''1''))
       = Inl (ClapSubcommandLongFlagValueError ''--t'' ''1'')"
proof -
  let ?s = "CommandDefinition ''s'' None None None None None (Some ''s'') (Some [''t'']) None None None"
  let ?r = "CommandDefinition ''r'' None None (Some [?s]) None None None None None None None"
  have a: "?s \<in> set (orEmpty (subcommands ?r))" by (simp add: orEmpty_def)
  have b: "longFlag ?s = Some ''s''" by simp
  have c: "substringFrom ''--t'' 2 \<in> set (''s'' # orEmpty (longFlagAliases ?s))"
    by (simp add: substringFrom_def substring_def orEmpty_def)
  from matchSubcommand_long_flag_value [OF a b c, of "''1''"] a b c show ?thesis by blast
qed

lemma substringFrom_two: "substringFrom (d # f # r) 2 = r"
  using substring_after_two [of d f r] by (simp add: substringFrom_def)

text \<open>
  The short-flag rule of \<open>matchSubcommand\<close>: for a bundle whose first letter is the
  \<open>shortFlag\<close> or a \<open>shortFlagAlias\<close> of a subcommand, and of none declared before it, the
  result is that subcommand, alone when the bundle has one letter, and with a bundle of
  the letters that remain otherwise.
\<close>

lemma matchSubcommand_short_bundle:
  assumes "orEmpty (subcommands command) = before @ s # after"
      and "\<forall>p \<in> set before. \<not> (shortFlag p \<noteq> None \<and>
             [first] \<in> set (the (shortFlag p) # orEmpty (shortFlagAliases p)))"
      and "shortFlag s = Some f"
      and "[first] \<in> set (f # orEmpty (shortFlagAliases s))"
  shows "matchSubcommand command (Short (dash # first # remainder)) =
     Inr \<lparr>sub = Some s,
          nextArg = (if remainder = [] then None else Some (Short (CHR ''-'' # remainder)))\<rparr>"
proof -
  have ch: "charAt (dash # first # r) (Suc 0) = Some first" for r
    by (simp add: charAt_def)
  have some: "someIsChar flags (Some first) = ([first] \<in> set flags)" for flags
    by (induction flags) (auto simp: someIsChar_def)
  have "matchSubcommand_loop command (before @ s # after) (Short (dash # first # remainder)) =
     Inr \<lparr>sub = Some s,
          nextArg = (if remainder = [] then None else Some (Short (CHR ''-'' # remainder)))\<rparr>"
    using assms(2)
  proof (induction before)
    case Nil
    from assms(3,4) show ?case
      by (auto simp add: ch some substringFrom_two)
  next
    case (Cons p before)
    then show ?case
      by (auto simp add: ch some)
  qed
  with assms(1) show ?thesis by (simp add: matchSubcommand_def)
qed

section \<open>The loop of \<open>handle\<close>\<close>

lemma handle_loop_called: "called (handle_loop command args acts) = acts"
  by (cases args) (auto split: sum.splits)

lemma handle_loop_outcome:
  "outcome (handle_loop command (arg # rest) acts) =
     (case arg of
        Long l (Some v) \<Rightarrow>
          if \<exists>s \<in> set (orEmpty (subcommands command)). longFlagMatches s l
          then Inl (ClapSubcommandLongFlagValueError l v)
          else Inl (ClapUnreachableError arg)
      | _ \<Rightarrow> Inl (ClapUnreachableError arg))"
proof (cases "\<exists>e. matchSubcommand command arg = Inl e")
  case True
  then obtain l v s where a: "arg = Long l (Some v)"
    and s: "s \<in> set (orEmpty (subcommands command))" "longFlagMatches s l"
    unfolding matchSubcommand_error_iff by blast
  from s obtain f where "longFlag s = Some f" "substringFrom l 2 \<in> set (f # orEmpty (longFlagAliases s))"
    by (auto simp: longFlagMatches_iff)
  with s have "matchSubcommand command (Long l (Some v)) = Inl (ClapSubcommandLongFlagValueError l v)"
    using loop_long_value [of s "orEmpty (subcommands command)" f l command v]
    by (simp add: matchSubcommand_def)
  with a s show ?thesis by auto
next
  case False
  then obtain m where m: "matchSubcommand command arg = Inr m"
    by (cases "matchSubcommand command arg") auto
  from False have "\<not> (\<exists>l v. arg = Long l (Some v) \<and> (\<exists>s \<in> set (orEmpty (subcommands command)). longFlagMatches s l))"
    unfolding matchSubcommand_error_iff .
  with m show ?thesis
    by (auto split: ParsedArgument.split option.split)
qed

lemmas validate_defs =
  createCommand_def validateCommandOptions_def validateSubcommandRequired_def
  validateMultipleDefault_def validateDisallowWithoutFlag_def validateShortFlagSingleChar_def
  validateShortFlagAliasesSingleChar_def validateFlagAliasesWithoutFlag_def
  andThen_def truthy_def truthyB_def orEmpty_def

text \<open>
  C2, as amended. For options that pass validation, \<open>handle\<close> calls no \<open>action\<close>. On no
  argument it returns. On any argument it throws in the first round of its loop, whatever
  follows the first argument: the error of \<open>matchSubcommand\<close> when the first argument is a
  long flag with an inline value that names a subcommand of the root, and a
  \<open>ClapUnreachableError\<close> otherwise.
\<close>

theorem handle_throws_at_first_argument:
  assumes "createCommand opts = Inr cmd"
  shows "called (handle cmd argsIn) = []
       \<and> (argsOf argsIn = [] \<longrightarrow> outcome (handle cmd argsIn) = Inr ())
       \<and> (\<forall>arg rest. argsOf argsIn = arg # rest \<longrightarrow>
            outcome (handle cmd argsIn) =
              (case arg of
                 Long l (Some v) \<Rightarrow>
                   if \<exists>s \<in> set (orEmpty (subcommands opts)). longFlagMatches s l
                   then Inl (ClapSubcommandLongFlagValueError l v)
                   else Inl (ClapUnreachableError arg)
               | _ \<Rightarrow> Inl (ClapUnreachableError arg))
            \<and> handle cmd argsIn = handle cmd (ParsedArgs \<lparr>raw = [], parsed = [arg]\<rparr>))"
proof -
  from assms have o: "options cmd = opts"
    by (auto simp: createCommand_def split: sum.splits)
  have c: "called (handle cmd argsIn) = []"
    by (simp add: handle_def handle_loop_called)
  have n: "argsOf argsIn = [] \<longrightarrow> outcome (handle cmd argsIn) = Inr ()"
    by (simp add: handle_def)
  have f: "outcome (handle cmd argsIn) =
              (case arg of
                 Long l (Some v) \<Rightarrow>
                   if \<exists>s \<in> set (orEmpty (subcommands opts)). longFlagMatches s l
                   then Inl (ClapSubcommandLongFlagValueError l v)
                   else Inl (ClapUnreachableError arg)
               | _ \<Rightarrow> Inl (ClapUnreachableError arg))
            \<and> handle cmd argsIn = handle cmd (ParsedArgs \<lparr>raw = [], parsed = [arg]\<rparr>)"
    if "argsOf argsIn = arg # rest" for arg rest
  proof
    show "outcome (handle cmd argsIn) =
              (case arg of
                 Long l (Some v) \<Rightarrow>
                   if \<exists>s \<in> set (orEmpty (subcommands opts)). longFlagMatches s l
                   then Inl (ClapSubcommandLongFlagValueError l v)
                   else Inl (ClapUnreachableError arg)
               | _ \<Rightarrow> Inl (ClapUnreachableError arg))"
      unfolding handle_def that o by (rule handle_loop_outcome)
    show "handle cmd argsIn = handle cmd (ParsedArgs \<lparr>raw = [], parsed = [arg]\<rparr>)"
      unfolding handle_def that by (simp add: argsOf_def)
  qed
  from c n f show ?thesis by blast
qed

theorem handle_throws_at_first_argument_witness:
  "createCommand (CommandDefinition ''r'' (Some 0) None None None None None None None None None)
     = Inr \<lparr>options = CommandDefinition ''r'' (Some 0) None None None None None None None None None\<rparr>
   \<and> called (handle \<lparr>options = CommandDefinition ''r'' (Some 0) None None None None None None None None None\<rparr>
        (RawArgs [''x''])) = []
   \<and> outcome (handle \<lparr>options = CommandDefinition ''r'' (Some 0) None None None None None None None None None\<rparr>
        (RawArgs [''x''])) = Inl (ClapUnreachableError (Text ''x''))"
proof -
  let ?r = "CommandDefinition ''r'' (Some 0) None None None None None None None None None"
  have c: "createCommand ?r = Inr \<lparr>options = ?r\<rparr>"
    by (simp add: validate_defs)
  have a: "argsOf (RawArgs [''x'']) = [Text ''x'']"
    by (simp add: argsOf_def parseArguments_def parse_def push_def startsWith_def)
  note t = handle_throws_at_first_argument [OF c, of "RawArgs [''x'']"]
  from t have d: "called (handle \<lparr>options = ?r\<rparr> (RawArgs [''x''])) = []"
    by (rule conjunct1)
  from t a have "outcome (handle \<lparr>options = ?r\<rparr> (RawArgs [''x''])) =
      (case Text ''x'' of
         Long l (Some v) \<Rightarrow>
           if \<exists>s \<in> set (orEmpty (subcommands ?r)). longFlagMatches s l
           then Inl (ClapSubcommandLongFlagValueError l v)
           else Inl (ClapUnreachableError (Text ''x''))
       | _ \<Rightarrow> Inl (ClapUnreachableError (Text ''x'')))"
    by blast
  then have "outcome (handle \<lparr>options = ?r\<rparr> (RawArgs [''x''])) = Inl (ClapUnreachableError (Text ''x''))"
    by simp
  with c d show ?thesis by (intro conjI)
qed

text \<open>
  The claim C2 as first stated has every argument end in a \<open>ClapUnreachableError\<close>; the
  argument \<open>--s=1\<close>, where \<open>s\<close> is the long flag of a subcommand, ends in the error of
  kind \<open>InvalidUserInput\<close>.
\<close>

theorem handle_long_flag_value_counterexample:
  "createCommand (CommandDefinition ''r'' None None
       (Some [CommandDefinition ''s'' None None None None None (Some ''s'') None None None None])
       None None None None None None None)
     = Inr \<lparr>options = CommandDefinition ''r'' None None
       (Some [CommandDefinition ''s'' None None None None None (Some ''s'') None None None None])
       None None None None None None None\<rparr>
   \<and> outcome (handle \<lparr>options = CommandDefinition ''r'' None None
       (Some [CommandDefinition ''s'' None None None None None (Some ''s'') None None None None])
       None None None None None None None\<rparr> (RawArgs [''--s=1'']))
     = Inl (ClapSubcommandLongFlagValueError ''--s'' ''1'')
   \<and> kind (ClapSubcommandLongFlagValueError ''--s'' ''1'') = InvalidUserInput
   \<and> InvalidUserInput \<noteq> LibraryBug"
proof -
  have a: "argsOf (RawArgs [''--s=1'']) = [Long ''--s'' (Some ''1'')]"
    by (simp add: argsOf_def parseArguments_def parse_def push_def startsWith_def indexOf_def
        substring_def)
  show ?thesis
    by (simp add: validate_defs handle_def a matchSubcommand_def substringFrom_def substring_def)
qed

text \<open>
  C1. Once the arguments are used up, the command reached is to have its \<open>action\<close>
  called, and a command that requires a subcommand is to fail when none was chosen. On
  no argument the code returns having called nothing, for every command; so it does for a
  root with an \<open>action\<close>, and for a root that requires a subcommand.
\<close>

theorem handle_empty_calls_no_action:
  "handle cmd (RawArgs []) = \<lparr>outcome = Inr (), called = []\<rparr>
   \<and> createCommand (CommandDefinition ''r'' (Some 0) None None None None None None None None None)
     = Inr \<lparr>options = CommandDefinition ''r'' (Some 0) None None None None None None None None None\<rparr>
   \<and> handle \<lparr>options = CommandDefinition ''r'' (Some 0) None None None None None None None None None\<rparr>
        (RawArgs []) = \<lparr>outcome = Inr (), called = []\<rparr>
   \<and> createCommand (CommandDefinition ''r'' None (Some True)
        (Some [CommandDefinition ''s'' (Some 1) None None None None None None None None None])
        None None None None None None None)
     = Inr \<lparr>options = CommandDefinition ''r'' None (Some True)
        (Some [CommandDefinition ''s'' (Some 1) None None None None None None None None None])
        None None None None None None None\<rparr>
   \<and> handle \<lparr>options = CommandDefinition ''r'' None (Some True)
        (Some [CommandDefinition ''s'' (Some 1) None None None None None None None None None])
        None None None None None None None\<rparr> (RawArgs [])
     = \<lparr>outcome = Inr (), called = []\<rparr>"
proof -
  have a: "argsOf (RawArgs []) = []"
    by (simp add: argsOf_def parseArguments_def)
  show ?thesis
    by (simp add: validate_defs handle_def a)
qed

text \<open>
  C6. A bundle of several letters whose first letter chooses a subcommand is to leave its
  other letters at the front of the queue, for the chosen subcommand. For the bundle
  \<open>-ab\<close> and the subcommands \<open>a\<close> and \<open>b\<close>, \<open>matchSubcommand\<close> returns \<open>a\<close> and the bundle
  \<open>-b\<close>; \<open>handle\<close> reads neither and throws a \<open>ClapUnreachableError\<close>.
\<close>

theorem handle_short_bundle_not_reinjected:
  "createCommand (CommandDefinition ''r'' None None
       (Some [CommandDefinition ''a'' None None None None None None None (Some ''a'') None None,
              CommandDefinition ''b'' None None None None None None None (Some ''b'') None None])
       None None None None None None None)
     = Inr \<lparr>options = CommandDefinition ''r'' None None
       (Some [CommandDefinition ''a'' None None None None None None None (Some ''a'') None None,
              CommandDefinition ''b'' None None None None None None None (Some ''b'') None None])
       None None None None None None None\<rparr>
   \<and> matchSubcommand (CommandDefinition ''r'' None None
       (Some [CommandDefinition ''a'' None None None None None None None (Some ''a'') None None,
              CommandDefinition ''b'' None None None None None None None (Some ''b'') None None])
       None None None None None None None) (Short ''-ab'')
     = Inr \<lparr>sub = Some (CommandDefinition ''a'' None None None None None None None (Some ''a'') None None),
            nextArg = Some (Short ''-b'')\<rparr>
   \<and> handle \<lparr>options = CommandDefinition ''r'' None None
       (Some [CommandDefinition ''a'' None None None None None None None (Some ''a'') None None,
              CommandDefinition ''b'' None None None None None None None (Some ''b'') None None])
       None None None None None None None\<rparr> (RawArgs [''-ab''])
     = \<lparr>outcome = Inl (ClapUnreachableError (Short ''-ab'')), called = []\<rparr>"
proof -
  have a: "argsOf (RawArgs [''-ab'']) = [Short ''-ab'']"
    by (simp add: argsOf_def parseArguments_def parse_def push_def startsWith_def)
  show ?thesis
    by (simp add: validate_defs handle_def a matchSubcommand_def substringFrom_def substring_def
        someIsChar_def charAt_def)
qed

section \<open>Validation\<close>

subsection \<open>Every error is an error of the configuration\<close>

lemma andThen_simps [simp]:
  "andThen (Inr u) k = k"
  "andThen (Inl e) k = Inl e"
  by (simp_all add: andThen_def)

lemma andThen_Inl:
  "andThen r k = Inl e \<Longrightarrow> r = Inl e \<or> (r = Inr () \<and> k = Inl e)"
  by (cases r) auto

lemma leaf_configuration:
  "validateSubcommandRequired x = Inl e \<Longrightarrow> is_configuration e"
  "validateMultipleDefault x = Inl e \<Longrightarrow> is_configuration e"
  "validateDisallowWithoutFlag x = Inl e \<Longrightarrow> is_configuration e"
  "validateShortFlagSingleChar x = Inl e \<Longrightarrow> is_configuration e"
  "validateFlagAliasesWithoutFlag x t = Inl e \<Longrightarrow> is_configuration e"
  by (auto simp: is_configuration_def validateSubcommandRequired_def validateMultipleDefault_def
      validateDisallowWithoutFlag_def validateShortFlagSingleChar_def
      validateFlagAliasesWithoutFlag_def Let_def split: if_splits option.splits)

lemma aliases_loop_configuration:
  "validateShortFlagAliasesSingleChar_loop n fs = Inl e \<Longrightarrow> is_configuration e"
proof (induction fs)
  case Nil
  then show ?case by simp
next
  case (Cons f fs)
  from andThen_Inl [OF Cons.prems [simplified]] Cons.IH show ?case
    by (auto dest: leaf_configuration)
qed

lemma aliases_configuration:
  "validateShortFlagAliasesSingleChar x = Inl e \<Longrightarrow> is_configuration e"
  by (simp add: validateShortFlagAliasesSingleChar_def aliases_loop_configuration)

lemma validate_configuration:
  "\<forall>e. validateCommandDefinition x = Inl e \<longrightarrow> is_configuration e"
  "\<forall>e. validateSubcommands y = Inl e \<longrightarrow> is_configuration e"
  "\<forall>e. validateSubcommands_loop ys = Inl e \<longrightarrow> is_configuration e"
  "\<forall>e. validateSubcommandDefinition z = Inl e \<longrightarrow> is_configuration e"
proof (induction x and y and ys and z
    rule: validateCommandDefinition_validateSubcommands_validateSubcommands_loop_validateSubcommandDefinition.induct)
  case (1 x)
  show ?case
  proof (intro allI impI)
    fix e assume "validateCommandDefinition x = Inl e"
    then have "andThen (validateSubcommandRequired x)
        (andThen (validateMultipleDefault x) (validateSubcommands x)) = Inl e" by simp
    then show "is_configuration e"
      using 1 by (auto dest!: andThen_Inl dest: leaf_configuration)
  qed
next
  case (2 x)
  then show ?case by simp
next
  case 3
  show ?case by simp
next
  case (4 s rest)
  show ?case
  proof (intro allI impI)
    fix e assume "validateSubcommands_loop (s # rest) = Inl e"
    then have "andThen (validateSubcommandDefinition s) (validateSubcommands_loop rest) = Inl e"
      by simp
    then show "is_configuration e"
      using 4 by (auto dest!: andThen_Inl)
  qed
next
  case (5 x)
  show ?case
  proof (intro allI impI)
    fix e assume "validateSubcommandDefinition x = Inl e"
    then have "andThen (validateCommandDefinition x)
      (andThen (validateDisallowWithoutFlag x)
      (andThen (validateShortFlagSingleChar x)
      (andThen (validateShortFlagAliasesSingleChar x)
      (andThen (validateFlagAliasesWithoutFlag x long_type)
               (validateFlagAliasesWithoutFlag x short_type))))) = Inl e" by simp
    then show "is_configuration e"
      using 5 by (auto dest!: andThen_Inl dest: leaf_configuration aliases_configuration)
  qed
qed

subsection \<open>How an error comes up to the root\<close>

lemma sub_error_of_command:
  "validateCommandDefinition s = Inl e \<Longrightarrow> validateSubcommandDefinition s = Inl e"
  by simp

lemma tree_error_aux:
  "\<forall>s \<in> set (commandsOfList (orEmpty (subcommands x))). \<forall>e.
      validateSubcommandDefinition s = Inl e \<longrightarrow> (\<exists>e'. validateCommandDefinition x = Inl e')"
  "\<forall>s \<in> set (commandsOfList xs). \<forall>e.
      validateSubcommandDefinition s = Inl e \<longrightarrow> (\<exists>e'. validateSubcommands_loop xs = Inl e')"
proof (induction x and xs rule: commandsOf_commandsOfList.induct)
  case (1 x)
  show ?case
  proof (intro ballI allI impI)
    fix s e
    assume "s \<in> set (commandsOfList (orEmpty (subcommands x)))"
      and "validateSubcommandDefinition s = Inl e"
    with 1 obtain e' where "validateSubcommands_loop (orEmpty (subcommands x)) = Inl e'"
      by blast
    then show "\<exists>e'. validateCommandDefinition x = Inl e'"
      by (cases "validateSubcommandRequired x"; cases "validateMultipleDefault x") simp_all
  qed
next
  case 2
  show ?case by simp
next
  case (3 t rest)
  note IH = this
  show ?case
  proof (intro ballI allI impI)
    fix s e
    assume s: "s \<in> set (commandsOfList (t # rest))"
      and e: "validateSubcommandDefinition s = Inl e"
    from s consider "s = t" | "s \<in> set (commandsOfList (orEmpty (subcommands t)))"
      | "s \<in> set (commandsOfList rest)"
      by auto
    then show "\<exists>e'. validateSubcommands_loop (t # rest) = Inl e'"
    proof cases
      case 1
      with e show ?thesis by simp
    next
      case 2
      with e IH(1) obtain e' where "validateCommandDefinition t = Inl e'" by blast
      then show ?thesis by simp
    next
      case 3
      with e IH(2) obtain e' where "validateSubcommands_loop rest = Inl e'" by blast
      then show ?thesis
        by (cases "validateSubcommandDefinition t") simp_all
    qed
  qed
qed

lemma subcommand_tree_error:
  "s \<in> set (commandsOfList (orEmpty (subcommands root))) \<Longrightarrow>
     validateSubcommandDefinition s = Inl e \<Longrightarrow> \<exists>e'. validateCommandDefinition root = Inl e'"
  using tree_error_aux(1) [of root] by blast

lemma command_tree_error:
  assumes "c \<in> set (commandsOf root)" and "validateCommandDefinition c = Inl e"
  shows "\<exists>e'. validateCommandDefinition root = Inl e'"
proof (cases "c = root")
  case True
  with assms(2) show ?thesis by blast
next
  case False
  with assms(1) have "c \<in> set (commandsOfList (orEmpty (subcommands root)))" by simp
  moreover from assms(2) have "validateSubcommandDefinition c = Inl e"
    by (rule sub_error_of_command)
  ultimately show ?thesis by (rule subcommand_tree_error)
qed

lemma reached_error_aux:
  "\<forall>s \<in> set (reached x). \<forall>e.
      validateSubcommandDefinition s = Inl e \<longrightarrow> validateCommandDefinition x = Inl e"
  "\<forall>s \<in> set (reachedList xs). \<forall>e.
      validateSubcommandDefinition s = Inl e \<longrightarrow> validateSubcommands_loop xs = Inl e"
proof (induction x and xs rule: reached_reachedList.induct)
  case (1 x)
  show ?case
  proof (cases "validateSubcommandRequired x = Inr () \<and> validateMultipleDefault x = Inr ()")
    case True
    with 1 show ?thesis by simp
  next
    case False
    then have "reached x = []" by auto
    then show ?thesis by simp
  qed
next
  case 2
  show ?case by simp
next
  case (3 t rest)
  note IH = this
  show ?case
  proof (intro ballI allI impI)
    fix s e
    assume s: "s \<in> set (reachedList (t # rest))"
      and e: "validateSubcommandDefinition s = Inl e"
    from s consider "s = t" | "s \<in> set (reached t)"
      | "validateSubcommandDefinition t = Inr ()" "s \<in> set (reachedList rest)"
      by (auto split: if_splits)
    then show "validateSubcommands_loop (t # rest) = Inl e"
    proof cases
      case 1
      with e show ?thesis by simp
    next
      case 2
      with e IH(1) have "validateCommandDefinition t = Inl e" by blast
      then show ?thesis by simp
    next
      case 3
      with e IH(2) have "validateSubcommands_loop rest = Inl e" by blast
      with 3(1) show ?thesis by simp
    qed
  qed
qed

lemma reached_error:
  "s \<in> set (reached root) \<Longrightarrow> validateSubcommandDefinition s = Inl e \<Longrightarrow>
     validateCommandDefinition root = Inl e"
  using reached_error_aux(1) [of root] by blast

lemma multiple_default_error:
  assumes "2 \<le> length (defaultSubcommands c)"
  shows "validateCommandDefinition c =
     Inl (ClapConfigurationError (multipleDefaultMessage (name c) (map name (defaultSubcommands c))))"
proof -
  from assms have "orEmpty (subcommands c) \<noteq> []"
    by (auto simp: defaultSubcommands_def)
  then have r: "validateSubcommandRequired c = Inr ()"
    by (simp add: validateSubcommandRequired_def)
  from assms have m: "validateMultipleDefault c =
     Inl (ClapConfigurationError (multipleDefaultMessage (name c) (map name (defaultSubcommands c))))"
    by (simp add: validateMultipleDefault_def defaultSubcommands_def truthyB_def Let_def)
  from r m show ?thesis by simp
qed

lemma createCommand_error:
  "validateCommandDefinition root = Inl e \<Longrightarrow> createCommand root = Inl e"
  by (simp add: createCommand_def validateCommandOptions_def)

lemma Command_handle_error:
  "createCommand root = Inl e \<Longrightarrow> Command_handle root argsIn = \<lparr>outcome = Inl e, called = []\<rparr>"
  by (simp add: Command_handle_def)

lemmas message_defs = multipleDefaultMessage_def shortFlagMessage_def

text \<open>
  C8, as amended. When some command of the tree has two default subcommands or more, the
  construction of the command fails with an error of the configuration, whatever the
  arguments: \<open>handle\<close> is never reached. Validating that command by itself gives the error
  that names it and its default subcommands, and that error is the one of the
  construction whenever the command is the root or the walk reaches it with no violation
  before.
\<close>

theorem multiple_default_rejected:
  assumes "c \<in> set (commandsOf root)" and "2 \<le> length (defaultSubcommands c)"
  shows "(\<exists>m. createCommand root = Inl (ClapConfigurationError m)
            \<and> kind (ClapConfigurationError m) = DeveloperInduced
            \<and> (\<forall>argsIn. Command_handle root argsIn
                  = \<lparr>outcome = Inl (ClapConfigurationError m), called = []\<rparr>))
       \<and> validateCommandDefinition c =
           Inl (ClapConfigurationError
             (multipleDefaultMessage (name c) (map name (defaultSubcommands c))))
       \<and> (c = root \<or> c \<in> set (reached root) \<longrightarrow>
           createCommand root =
             Inl (ClapConfigurationError
               (multipleDefaultMessage (name c) (map name (defaultSubcommands c)))))"
proof -
  let ?e = "ClapConfigurationError (multipleDefaultMessage (name c) (map name (defaultSubcommands c)))"
  have c: "validateCommandDefinition c = Inl ?e"
    using assms(2) by (rule multiple_default_error)
  from command_tree_error [OF assms(1) c] obtain e' where e': "validateCommandDefinition root = Inl e'"
    by blast
  with validate_configuration(1) [of root] obtain m where m: "e' = ClapConfigurationError m"
    by (auto simp: is_configuration_def)
  from e' m have cc: "createCommand root = Inl (ClapConfigurationError m)"
    by (simp add: createCommand_error)
  then have first: "\<exists>m. createCommand root = Inl (ClapConfigurationError m)
            \<and> kind (ClapConfigurationError m) = DeveloperInduced
            \<and> (\<forall>argsIn. Command_handle root argsIn
                  = \<lparr>outcome = Inl (ClapConfigurationError m), called = []\<rparr>)"
    by (auto simp: Command_handle_error)
  have named: "createCommand root = Inl ?e" if "c = root \<or> c \<in> set (reached root)"
  proof -
    from that have "validateCommandDefinition root = Inl ?e"
    proof
      assume "c = root" with c show ?thesis by simp
    next
      assume "c \<in> set (reached root)"
      moreover have "validateSubcommandDefinition c = Inl ?e"
        using c by (rule sub_error_of_command)
      ultimately show ?thesis by (rule reached_error)
    qed
    then show ?thesis by (rule createCommand_error)
  qed
  from first c named show ?thesis by blast
qed

theorem multiple_default_rejected_witness:
  "CommandDefinition ''b'' None None
        (Some [CommandDefinition ''c'' None None None (Some True) None None None None None None,
               CommandDefinition ''d'' None None None (Some True) None None None None None None])
        None None None None None None None
     \<in> set (commandsOf
     (CommandDefinition ''r'' None None
        (Some [CommandDefinition ''b'' None None
           (Some [CommandDefinition ''c'' None None None (Some True) None None None None None None,
                  CommandDefinition ''d'' None None None (Some True) None None None None None None])
           None None None None None None None])
        None None None None None None None))
   \<and> 2 \<le> length (defaultSubcommands (CommandDefinition ''b'' None None
        (Some [CommandDefinition ''c'' None None None (Some True) None None None None None None,
               CommandDefinition ''d'' None None None (Some True) None None None None None None])
        None None None None None None None))
   \<and> createCommand
     (CommandDefinition ''r'' None None
        (Some [CommandDefinition ''b'' None None
           (Some [CommandDefinition ''c'' None None None (Some True) None None None None None None,
                  CommandDefinition ''d'' None None None (Some True) None None None None None None])
           None None None None None None None])
        None None None None None None None)
     = Inl (ClapConfigurationError (multipleDefaultMessage ''b'' [''c'', ''d'']))"
proof -
  let ?c = "CommandDefinition ''c'' None None None (Some True) None None None None None None"
  let ?d = "CommandDefinition ''d'' None None None (Some True) None None None None None None"
  let ?b = "CommandDefinition ''b'' None None (Some [?c, ?d]) None None None None None None None"
  let ?r = "CommandDefinition ''r'' None None (Some [?b]) None None None None None None None"
  have t: "?b \<in> set (commandsOf ?r)"
    by (simp add: orEmpty_def)
  have n: "2 \<le> length (defaultSubcommands ?b)"
    by (simp add: defaultSubcommands_def orEmpty_def)
  have "?b \<in> set (reached ?r)"
    by (simp add: validateSubcommandRequired_def validateMultipleDefault_def
          truthyB_def orEmpty_def)
  with multiple_default_rejected [OF t n]
  have "createCommand ?r = Inl (ClapConfigurationError
      (multipleDefaultMessage (name ?b) (map name (defaultSubcommands ?b))))"
    by blast
  then have "createCommand ?r = Inl (ClapConfigurationError (multipleDefaultMessage ''b'' [''c'', ''d'']))"
    by (simp add: defaultSubcommands_def orEmpty_def)
  with t n show ?thesis by (intro conjI)
qed

text \<open>
  The claim C8 as first stated has the error name the command with the two defaults;
  here a subcommand declared before it requires a subcommand and has none, and the error
  names that one.
\<close>

theorem multiple_default_masked_counterexample:
  "CommandDefinition ''b'' None None
        (Some [CommandDefinition ''c'' None None None (Some True) None None None None None None,
               CommandDefinition ''d'' None None None (Some True) None None None None None None])
        None None None None None None None
     \<in> set (commandsOf
     (CommandDefinition ''r'' None None
        (Some [CommandDefinition ''f'' None (Some True) None None None None None None None None,
               CommandDefinition ''b'' None None
           (Some [CommandDefinition ''c'' None None None (Some True) None None None None None None,
                  CommandDefinition ''d'' None None None (Some True) None None None None None None])
           None None None None None None None])
        None None None None None None None))
   \<and> length (defaultSubcommands (CommandDefinition ''b'' None None
        (Some [CommandDefinition ''c'' None None None (Some True) None None None None None None,
               CommandDefinition ''d'' None None None (Some True) None None None None None None])
        None None None None None None None)) = 2
   \<and> createCommand
     (CommandDefinition ''r'' None None
        (Some [CommandDefinition ''f'' None (Some True) None None None None None None None None,
               CommandDefinition ''b'' None None
           (Some [CommandDefinition ''c'' None None None (Some True) None None None None None None,
                  CommandDefinition ''d'' None None None (Some True) None None None None None None])
           None None None None None None None])
        None None None None None None None)
     = Inl (ClapConfigurationError
         ''In command `f`, a subcommand is required, yet no subcommands are specified.'')
   \<and> ''In command `f`, a subcommand is required, yet no subcommands are specified.''
       \<noteq> multipleDefaultMessage ''b'' [''c'', ''d'']"
proof -
  let ?c = "CommandDefinition ''c'' None None None (Some True) None None None None None None"
  let ?d = "CommandDefinition ''d'' None None None (Some True) None None None None None None"
  let ?b = "CommandDefinition ''b'' None None (Some [?c, ?d]) None None None None None None None"
  let ?f = "CommandDefinition ''f'' None (Some True) None None None None None None None None"
  let ?r = "CommandDefinition ''r'' None None (Some [?f, ?b]) None None None None None None None"
  have t: "?b \<in> set (commandsOf ?r)"
    by (simp add: orEmpty_def)
  have n: "length (defaultSubcommands ?b) = 2"
    by (simp add: defaultSubcommands_def orEmpty_def)
  have e: "createCommand ?r = Inl (ClapConfigurationError
         ''In command `f`, a subcommand is required, yet no subcommands are specified.'')"
    by (simp add: validate_defs)
  have m: "''In command `f`, a subcommand is required, yet no subcommands are specified.''
       \<noteq> multipleDefaultMessage ''b'' [''c'', ''d'']"
    by (simp add: message_defs)
  from t n e m show ?thesis by (intro conjI)
qed

subsection \<open>Short flags of several characters\<close>

lemma short_flag_several:
  "shortFlag s = Some f \<Longrightarrow> severalChars f \<Longrightarrow>
     validateShortFlagSingleChar s = Inl (ClapConfigurationError (shortFlagMessage (name s) f))"
  by (auto simp: validateShortFlagSingleChar_def severalChars_def)

lemma alias_check:
  "validateShortFlagSingleChar (nameAndShortFlag n g) =
     (if severalChars g then Inl (ClapConfigurationError (shortFlagMessage n g)) else Inr ())"
  by (cases g; cases "tl g")
     (auto simp: validateShortFlagSingleChar_def nameAndShortFlag_def severalChars_def)

lemma aliases_loop_first:
  "\<forall>g \<in> set before. \<not> severalChars g \<Longrightarrow> severalChars f \<Longrightarrow>
     validateShortFlagAliasesSingleChar_loop n (before @ f # after)
       = Inl (ClapConfigurationError (shortFlagMessage n f))"
  by (induction before) (simp_all add: alias_check)

lemma aliases_loop_member:
  "f \<in> set fs \<Longrightarrow> severalChars f \<Longrightarrow> \<exists>e. validateShortFlagAliasesSingleChar_loop n fs = Inl e"
  by (induction fs) (auto simp: alias_check)

lemma subcommand_error_if_several:
  assumes "(\<exists>f. shortFlag s = Some f \<and> severalChars f) \<or>
           (\<exists>f \<in> set (orEmpty (shortFlagAliases s)). severalChars f)"
  shows "\<exists>e. validateSubcommandDefinition s = Inl e"
proof -
  have tail: "\<exists>e. andThen (validateShortFlagSingleChar s)
       (andThen (validateShortFlagAliasesSingleChar s) k) = Inl e" for k
  proof (cases "validateShortFlagSingleChar s")
    case (Inl e)
    then show ?thesis by simp
  next
    case (Inr u)
    with assms short_flag_several [of s] obtain f where
      "f \<in> set (orEmpty (shortFlagAliases s))" "severalChars f" by force
    from aliases_loop_member [OF this] obtain e where
      "validateShortFlagAliasesSingleChar s = Inl e"
      by (auto simp: validateShortFlagAliasesSingleChar_def)
    with Inr show ?thesis by simp
  qed
  show ?thesis
    using tail by (cases "validateCommandDefinition s"; cases "validateDisallowWithoutFlag s") simp_all
qed

text \<open>
  C9, as amended. When some subcommand of the tree has a \<open>shortFlag\<close> of two characters
  or more, or such an entry among its \<open>shortFlagAliases\<close>, validation fails with an error
  of the configuration. That error names the subcommand and the flag when the walk
  reaches the subcommand with no violation before and the checks made on the subcommand
  before that flag pass.
\<close>

theorem several_chars_short_flag_rejected:
  assumes "s \<in> set (commandsOfList (orEmpty (subcommands root)))"
      and "(\<exists>f. shortFlag s = Some f \<and> severalChars f) \<or>
           (\<exists>f \<in> set (orEmpty (shortFlagAliases s)). severalChars f)"
  shows "(\<exists>m. createCommand root = Inl (ClapConfigurationError m)
            \<and> kind (ClapConfigurationError m) = DeveloperInduced)
       \<and> (\<forall>f. shortFlag s = Some f \<and> severalChars f \<and> s \<in> set (reached root) \<and>
               validateCommandDefinition s = Inr () \<and> validateDisallowWithoutFlag s = Inr ()
             \<longrightarrow> createCommand root = Inl (ClapConfigurationError (shortFlagMessage (name s) f)))
       \<and> (\<forall>before f after.
               orEmpty (shortFlagAliases s) = before @ f # after \<and>
               (\<forall>g \<in> set before. \<not> severalChars g) \<and> severalChars f \<and> s \<in> set (reached root) \<and>
               validateCommandDefinition s = Inr () \<and> validateDisallowWithoutFlag s = Inr () \<and>
               validateShortFlagSingleChar s = Inr ()
             \<longrightarrow> createCommand root = Inl (ClapConfigurationError (shortFlagMessage (name s) f)))"
proof -
  from subcommand_error_if_several [OF assms(2)] obtain e where
    "validateSubcommandDefinition s = Inl e" by blast
  from subcommand_tree_error [OF assms(1) this] obtain e'' where
    e'': "validateCommandDefinition root = Inl e''"
    by blast
  with validate_configuration(1) [of root] obtain m where "e'' = ClapConfigurationError m"
    by (auto simp: is_configuration_def)
  with e'' have first: "\<exists>m. createCommand root = Inl (ClapConfigurationError m)
            \<and> kind (ClapConfigurationError m) = DeveloperInduced"
    by (auto simp: createCommand_error)
  have flag: "createCommand root = Inl (ClapConfigurationError (shortFlagMessage (name s) f))"
    if "shortFlag s = Some f \<and> severalChars f \<and> s \<in> set (reached root) \<and>
        validateCommandDefinition s = Inr () \<and> validateDisallowWithoutFlag s = Inr ()" for f
  proof -
    from that have r: "s \<in> set (reached root)" by blast
    from that have "validateSubcommandDefinition s
        = Inl (ClapConfigurationError (shortFlagMessage (name s) f))"
      by (simp add: short_flag_several)
    with r have "validateCommandDefinition root
        = Inl (ClapConfigurationError (shortFlagMessage (name s) f))"
      by (rule reached_error)
    then show ?thesis by (rule createCommand_error)
  qed
  have by_alias: "createCommand root = Inl (ClapConfigurationError (shortFlagMessage (name s) f))"
    if "orEmpty (shortFlagAliases s) = before @ f # after \<and>
        (\<forall>g \<in> set before. \<not> severalChars g) \<and> severalChars f \<and> s \<in> set (reached root) \<and>
        validateCommandDefinition s = Inr () \<and> validateDisallowWithoutFlag s = Inr () \<and>
        validateShortFlagSingleChar s = Inr ()" for before f after
  proof -
    from that have "validateShortFlagAliasesSingleChar s
        = Inl (ClapConfigurationError (shortFlagMessage (name s) f))"
      by (simp add: validateShortFlagAliasesSingleChar_def aliases_loop_first)
    with that have "validateSubcommandDefinition s
        = Inl (ClapConfigurationError (shortFlagMessage (name s) f))"
      by simp
    moreover from that have "s \<in> set (reached root)" by blast
    ultimately have "validateCommandDefinition root
        = Inl (ClapConfigurationError (shortFlagMessage (name s) f))"
      by (intro reached_error)
    then show ?thesis by (rule createCommand_error)
  qed
  from first flag by_alias show ?thesis by blast
qed

theorem several_chars_short_flag_rejected_witness:
  "CommandDefinition ''a'' None None None None None None None (Some ''xy'') None None
     \<in> set (commandsOfList (orEmpty (subcommands
     (CommandDefinition ''r'' None None
        (Some [CommandDefinition ''b'' None None
           (Some [CommandDefinition ''a'' None None None None None None None (Some ''xy'') None None])
           None None None None None None None])
        None None None None None None None))))
   \<and> shortFlag (CommandDefinition ''a'' None None None None None None None (Some ''xy'') None None)
       = Some ''xy''
   \<and> severalChars ''xy''
   \<and> createCommand
     (CommandDefinition ''r'' None None
        (Some [CommandDefinition ''b'' None None
           (Some [CommandDefinition ''a'' None None None None None None None (Some ''xy'') None None])
           None None None None None None None])
        None None None None None None None)
     = Inl (ClapConfigurationError (shortFlagMessage ''a'' ''xy''))"
proof -
  let ?a = "CommandDefinition ''a'' None None None None None None None (Some ''xy'') None None"
  let ?b = "CommandDefinition ''b'' None None (Some [?a]) None None None None None None None"
  let ?r = "CommandDefinition ''r'' None None (Some [?b]) None None None None None None None"
  have s: "?a \<in> set (commandsOfList (orEmpty (subcommands ?r)))" by (simp add: orEmpty_def)
  have f: "shortFlag ?a = Some ''xy''" by simp
  have v: "severalChars ''xy''" by (simp add: severalChars_def)
  have bad: "(\<exists>f. shortFlag ?a = Some f \<and> severalChars f) \<or>
           (\<exists>f \<in> set (orEmpty (shortFlagAliases ?a)). severalChars f)"
    using f v by blast
  have r: "?a \<in> set (reached ?r)"
    by (simp add: validateSubcommandRequired_def validateMultipleDefault_def
          truthyB_def orEmpty_def)
  have c: "validateCommandDefinition ?a = Inr ()"
    by (simp add: validate_defs)
  have d: "validateDisallowWithoutFlag ?a = Inr ()"
    by (simp add: validate_defs)
  from several_chars_short_flag_rejected [OF s bad] f v r c d
  have "createCommand ?r = Inl (ClapConfigurationError (shortFlagMessage (name ?a) ''xy''))"
    by blast
  then have "createCommand ?r = Inl (ClapConfigurationError (shortFlagMessage ''a'' ''xy''))"
    by simp
  with s f v show ?thesis by (intro conjI)
qed

text \<open>
  The claim C9 as first stated has the error name the subcommand and its flag; here the
  root has two default subcommands, and the error is the one of that rule.
\<close>

theorem short_flag_masked_counterexample:
  "CommandDefinition ''a'' None None None (Some True) None None None (Some ''xy'') None None
       \<in> set (commandsOfList (orEmpty (subcommands (CommandDefinition ''r'' None None
        (Some [CommandDefinition ''a'' None None None (Some True) None None None (Some ''xy'') None None,
               CommandDefinition ''b'' None None None (Some True) None None None None None None])
        None None None None None None None))))
   \<and> shortFlag (CommandDefinition ''a'' None None None (Some True) None None None (Some ''xy'') None None)
       = Some ''xy''
   \<and> severalChars ''xy''
   \<and> createCommand
     (CommandDefinition ''r'' None None
        (Some [CommandDefinition ''a'' None None None (Some True) None None None (Some ''xy'') None None,
               CommandDefinition ''b'' None None None (Some True) None None None None None None])
        None None None None None None None)
     = Inl (ClapConfigurationError (multipleDefaultMessage ''r'' [''a'', ''b'']))
   \<and> multipleDefaultMessage ''r'' [''a'', ''b''] \<noteq> shortFlagMessage ''a'' ''xy''"
  by (simp add: validate_defs message_defs severalChars_def Let_def)

text \<open>An empty \<open>shortFlag\<close>, and an empty alias, pass the test of the single character.\<close>

lemma empty_short_flag_accepted:
  "createCommand
     (CommandDefinition ''r'' None None
        (Some [CommandDefinition ''a'' None None None None None None None (Some '''') None None])
        None None None None None None None)
     = Inr \<lparr>options = CommandDefinition ''r'' None None
        (Some [CommandDefinition ''a'' None None None None None None None (Some '''') None None])
        None None None None None None None\<rparr>"
  by (simp add: validate_defs Let_def)

lemma empty_short_flag_alias_accepted:
  "createCommand
     (CommandDefinition ''r'' None None
        (Some [CommandDefinition ''a'' None None None None None None None (Some ''a'') (Some ['''']) None])
        None None None None None None None)
     = Inr \<lparr>options = CommandDefinition ''r'' None None
        (Some [CommandDefinition ''a'' None None None None None None None (Some ''a'') (Some ['''']) None])
        None None None None None None None\<rparr>"
  by (simp add: validate_defs nameAndShortFlag_def Let_def)

end
